theory Spec2Isabelle
  imports Main
begin

section \<open>JavaScript values, strings and objects\<close>

text \<open>
  The service works on plain JavaScript data. A value is modelled by \<open>jsval\<close>; an object is
  an association list in the order \<open>Object.keys\<close> enumerates it (insertion order; keys are
  taken not to be canonical array indices, which JavaScript would enumerate first, and the
  prototype chain is not modelled), with distinct keys. Strings are lists of 8-bit code
  units. An integer number is an \<open>int\<close>; a double read by \<open>parseFloat\<close> is kept as the
  text of the literal that was read (\<open>VFloat\<close>), from which its truthiness and its
  rendering as a string are read off. The cells of a CSV row are strings, as the parser
  delivers them.
\<close>

datatype jsval =
    VUndefined
  | VNull
  | VBool bool
  | VNum int
  | VFloat string
  | VStr string
  | VArr "jsval list"
  | VObj "(string \<times> jsval) list"

type_synonym jsobj = "(string \<times> jsval) list"

text \<open>A CSV row as the parser delivers it: column name to cell text.\<close>

type_synonym rawrow = "(string \<times> string) list"

fun obj_get :: "(string \<times> 'a) list \<Rightarrow> string \<Rightarrow> 'a option" where
  "obj_get [] k = None"
| "obj_get ((k', v) # rest) k = (if k' = k then Some v else obj_get rest k)"

text \<open>\<open>o[k] = v\<close>: an existing key keeps its place, a new key is appended.\<close>

fun obj_set :: "(string \<times> 'a) list \<Rightarrow> string \<Rightarrow> 'a \<Rightarrow> (string \<times> 'a) list" where
  "obj_set [] k v = [(k, v)]"
| "obj_set ((k', v') # rest) k v =
     (if k' = k then (k, v) # rest else (k', v') # obj_set rest k v)"

text \<open>\<open>delete o[k]\<close>.\<close>

fun obj_delete :: "(string \<times> 'a) list \<Rightarrow> string \<Rightarrow> (string \<times> 'a) list" where
  "obj_delete [] k = []"
| "obj_delete ((k', v') # rest) k =
     (if k' = k then obj_delete rest k else (k', v') # obj_delete rest k)"

text \<open>\<open>o[k]\<close> read as a value: a missing key reads \<open>undefined\<close>.\<close>

definition obj_read :: "jsobj \<Rightarrow> string \<Rightarrow> jsval" where
  "obj_read ob k = (case obj_get ob k of None \<Rightarrow> VUndefined | Some v \<Rightarrow> v)"

text \<open>White space of \<open>String.prototype.trim\<close> and of \<open>\s\<close>, among 8-bit code units.\<close>

definition js_isWhiteSpace :: "char \<Rightarrow> bool" where
  "js_isWhiteSpace c = (c \<in> set [CHR 0x09, CHR 0x0A, CHR 0x0B, CHR 0x0C, CHR 0x0D, CHR 0x20, CHR 0xA0])"

definition js_trimStart :: "string \<Rightarrow> string" where
  "js_trimStart s = dropWhile js_isWhiteSpace s"

definition js_trim :: "string \<Rightarrow> string" where
  "js_trim s = rev (dropWhile js_isWhiteSpace (rev (dropWhile js_isWhiteSpace s)))"

text \<open>\<open>s.split(sep)\<close> for a one-character separator: the empty string gives one empty piece.\<close>

fun js_split :: "char \<Rightarrow> string \<Rightarrow> string list" where
  "js_split sep [] = [[]]"
| "js_split sep (c # cs) =
     (if c = sep then [] # js_split sep cs
      else (case js_split sep cs of [] \<Rightarrow> [[c]] | p # ps \<Rightarrow> (c # p) # ps))"

fun js_join :: "string \<Rightarrow> string list \<Rightarrow> string" where
  "js_join sep [] = []"
| "js_join sep [x] = x"
| "js_join sep (x # y # ys) = x @ sep @ js_join sep (y # ys)"

definition js_toLowerChar :: "char \<Rightarrow> char" where
  "js_toLowerChar c =
     (let n = (of_char c :: nat)
      in if (65 \<le> n \<and> n \<le> 90) \<or> (192 \<le> n \<and> n \<le> 222 \<and> n \<noteq> 215)
         then char_of (n + 32) else c)"

definition js_toLowerCase :: "string \<Rightarrow> string" where
  "js_toLowerCase s = map js_toLowerChar s"

definition js_startsWith :: "string \<Rightarrow> string \<Rightarrow> bool" where
  "js_startsWith s p = (take (length p) s = p)"

definition js_endsWith :: "string \<Rightarrow> string \<Rightarrow> bool" where
  "js_endsWith s p = (length p \<le> length s \<and> drop (length s - length p) s = p)"

definition js_isDigit :: "char \<Rightarrow> bool" where
  "js_isDigit c = (c \<in> set ''0123456789'')"

definition digits_value :: "string \<Rightarrow> nat" where
  "digits_value ds = foldl (\<lambda>a c. 10 * a + (of_char c - 48)) 0 ds"

text \<open>An optional sign in front of a numeral: the sign read and the rest.\<close>

fun js_sign :: "string \<Rightarrow> string \<times> string" where
  "js_sign [] = ([], [])"
| "js_sign (c # r) = (if c = CHR ''-'' \<or> c = CHR ''+'' then ([c], r) else ([], c # r))"

text \<open>
  \<open>parseInt(s, 10)\<close>: leading white space, an optional sign, then the longest run of
  decimal digits; \<open>None\<close> is \<open>NaN\<close>. The result is the exact integer (a double loses
  precision above \<open>2^53\<close>).
\<close>

definition js_parseInt10 :: "string \<Rightarrow> int option" where
  "js_parseInt10 s =
     (let (sg, u) = js_sign (js_trimStart s);
          ds = takeWhile js_isDigit u
      in if ds = [] then None
         else Some ((if sg = ''-'' then - 1 else 1) * int (digits_value ds)))"

text \<open>The exponent part \<open>e[+-]digits\<close> at the front of a string, empty when there is none.\<close>

fun js_exponent :: "string \<Rightarrow> string" where
  "js_exponent [] = []"
| "js_exponent (c # r) =
     (if c = CHR ''e'' \<or> c = CHR ''E''
      then (let (sg, u) = js_sign r; ds = takeWhile js_isDigit u
            in if ds = [] then [] else c # sg @ ds)
      else [])"

text \<open>
  \<open>parseFloat(s)\<close>: leading white space, then the longest prefix that is a decimal
  literal (sign, \<open>Infinity\<close>, or digits with an optional fraction and exponent). The
  result is the text of that literal, \<open>None\<close> for \<open>NaN\<close>.
\<close>

definition js_parseFloat :: "string \<Rightarrow> string option" where
  "js_parseFloat s =
     (let (sg, u) = js_sign (js_trimStart s)
      in if js_startsWith u ''Infinity'' then Some (sg @ ''Infinity'')
         else
           (let ip = takeWhile js_isDigit u;
                r1 = dropWhile js_isDigit u;
                dot = (r1 \<noteq> [] \<and> hd r1 = CHR ''.'');
                fp = (if dot then takeWhile js_isDigit (tl r1) else []);
                r2 = (if dot then dropWhile js_isDigit (tl r1) else r1)
            in if ip = [] \<and> fp = [] then None
               else Some (sg @ ip @ (if dot then CHR ''.'' # fp else []) @ js_exponent r2)))"

text \<open>Truthiness of a value, as \<open>if (v)\<close> and \<open>!v\<close> test it.\<close>

fun js_truthy :: "jsval \<Rightarrow> bool" where
  "js_truthy VUndefined = False"
| "js_truthy VNull = False"
| "js_truthy (VBool b) = b"
| "js_truthy (VNum n) = (n \<noteq> 0)"
| "js_truthy (VFloat t) =
     (\<exists>c \<in> set (takeWhile (\<lambda>c. c \<noteq> CHR ''e'' \<and> c \<noteq> CHR ''E'') t). c \<in> set ''123456789In'')"
| "js_truthy (VStr s) = (s \<noteq> [])"
| "js_truthy (VArr xs) = True"
| "js_truthy (VObj ob) = True"

section \<open>Schema\<close>

text \<open>
  An attribute descriptor of a content type or component schema, with the properties the
  service reads: \<open>type\<close>, \<open>required\<close>, \<open>default\<close>, \<open>unique\<close>, \<open>enum\<close>, \<open>relation\<close>,
  \<open>target\<close>, \<open>component\<close>, \<open>repeatable\<close>. An absent \<open>default\<close> is \<open>VUndefined\<close>.
\<close>

record attribute =
  attr_type :: string
  attr_required :: bool
  attr_default :: jsval
  attr_unique :: bool
  attr_enum :: "string list option"
  attr_relation :: string
  attr_target :: "string option"
  attr_component :: string
  attr_repeatable :: bool

type_synonym attributes = "(string \<times> attribute) list"

section \<open>Nested records (components)\<close>

text \<open>
  \<open>parseComponentRows(componentData)\<close>. The capture maps a subfield path to the cell text
  (\<open>String\<close> of a string is the string). First loop: split and trim every value, and
  take the longest split (at least 1).
\<close>

definition parsedFields :: "rawrow \<Rightarrow> (string \<times> string list) list" where
  "parsedFields componentData =
     map (\<lambda>(fieldKey, v). (fieldKey, map js_trim (js_split CHR '','' v))) componentData"

definition maxRows :: "(string \<times> string list) list \<Rightarrow> nat" where
  "maxRows parsed = foldl (\<lambda>m (fieldKey, values). max m (length values)) 1 parsed"

text \<open>The inner loop for row \<open>i\<close>: a field is written when its \<open>i\<close>-th value is non-empty.\<close>

fun componentRow :: "(string \<times> string list) list \<Rightarrow> nat \<Rightarrow> rawrow" where
  "componentRow [] i = []"
| "componentRow ((fieldKey, values) # rest) i =
     (let v = (if i < length values then values ! i else [])
      in if v \<noteq> [] then (fieldKey, v) # componentRow rest i else componentRow rest i)"

definition parseComponentRows :: "rawrow \<Rightarrow> rawrow list" where
  "parseComponentRows componentData =
     (if componentData = [] then []
      else (let parsed = parsedFields componentData
            in filter (\<lambda>rowData. rowData \<noteq> [])
                 (map (componentRow parsed) [0 ..< maxRows parsed])))"

text \<open>
  \<open>convertComponentFieldValue(value, attribute)\<close> for a cell text. \<open>new Date(value)\<close>
  is the host's date parser: \<open>toISO\<close> gives the ISO string of a text the host accepts and
  \<open>None\<close> for an invalid date.
\<close>

definition convertComponentFieldValue ::
  "(string \<Rightarrow> string option) \<Rightarrow> string \<Rightarrow> attribute \<Rightarrow> jsval" where
  "convertComponentFieldValue toISO v attribute =
     (if v = [] then VNull
      else if attr_type attribute = ''integer'' \<or> attr_type attribute = ''biginteger''
        then (case js_parseInt10 v of None \<Rightarrow> VNull | Some intVal \<Rightarrow> VNum intVal)
      else if attr_type attribute = ''decimal'' \<or> attr_type attribute = ''float''
        then (case js_parseFloat v of None \<Rightarrow> VNull | Some floatVal \<Rightarrow> VFloat floatVal)
      else if attr_type attribute = ''boolean''
        then VBool (js_toLowerCase v \<in> set [''true'', ''1'', ''yes''])
      else if attr_type attribute = ''date'' \<or> attr_type attribute = ''datetime''
              \<or> attr_type attribute = ''time''
        then (case toISO v of None \<Rightarrow> VNull | Some isoString \<Rightarrow> VStr isoString)
      else VStr v)"

section \<open>Header mapping\<close>

text \<open>
  A header mapping entry. \<open>relationField\<close>, \<open>componentField\<close> and \<open>componentName\<close> are
  \<open>None\<close> where the source leaves them undefined; an undefined \<open>isComponent\<close> is false.
\<close>

record mapping =
  map_field :: string
  map_relationField :: "string option"
  map_componentField :: "string option"
  map_isDotNotation :: bool
  map_isComponent :: bool
  map_isValid :: bool
  map_componentName :: "string option"

definition invalidMapping :: "string \<Rightarrow> bool \<Rightarrow> mapping" where
  "invalidMapping header dotted =
     \<lparr>map_field = header, map_relationField = None, map_componentField = None,
      map_isDotNotation = dotted, map_isComponent = False, map_isValid = False,
      map_componentName = None\<rparr>"

text \<open>The body of the \<open>forEach\<close> of \<open>parseHeaderMapping\<close>: the entry of one header.\<close>

definition headerEntry :: "attributes \<Rightarrow> string \<Rightarrow> mapping" where
  "headerEntry attributes header =
     (if CHR ''.'' \<in> set header then
        (case js_split CHR ''.'' header of
           fieldName # relationField # restParts \<Rightarrow>
             (case obj_get attributes fieldName of
                Some attribute \<Rightarrow>
                  if attr_type attribute = ''relation'' then
                    \<lparr>map_field = fieldName, map_relationField = Some relationField,
                     map_componentField = None, map_isDotNotation = True,
                     map_isComponent = False, map_isValid = True, map_componentName = None\<rparr>
                  else if attr_type attribute = ''component'' then
                    \<lparr>map_field = fieldName, map_relationField = None,
                     map_componentField = Some (js_join ''.'' (relationField # restParts)),
                     map_isDotNotation = True, map_isComponent = True, map_isValid = True,
                     map_componentName = Some (attr_component attribute)\<rparr>
                  else invalidMapping header True
              | None \<Rightarrow> invalidMapping header True)
         | _ \<Rightarrow> invalidMapping header True)
      else
        (case obj_get attributes header of
           Some attribute \<Rightarrow>
             \<lparr>map_field = header, map_relationField = None, map_componentField = None,
              map_isDotNotation = False, map_isComponent = False, map_isValid = True,
              map_componentName = None\<rparr>
         | None \<Rightarrow> invalidMapping header False))"

definition parseHeaderMapping :: "string list \<Rightarrow> attributes \<Rightarrow> (string \<times> mapping) list" where
  "parseHeaderMapping csvHeaders attributes =
     foldl (\<lambda>headerMapping header. obj_set headerMapping header (headerEntry attributes header))
       [] csvHeaders"

section \<open>Validation\<close>

definition dq :: string where
  "dq = [CHR 0x22]"

function js_natToString :: "nat \<Rightarrow> string" where
  "js_natToString n =
     (if n < 10 then [char_of (48 + n)]
      else js_natToString (n div 10) @ [char_of (48 + n mod 10)])"
  by pat_completeness auto
termination
  by (relation "measure id") auto

declare js_natToString.simps [simp del]

text \<open>
  \<open>validateRelationFieldUniqueness\<close>. \<open>contentTypes\<close> is the registry
  \<open>strapi.contentTypes\<close>, from a uid to the attributes of that schema. First loop: the
  dotted relation headers, one entry per relation field (a later header of the same field
  replaces the entry).
\<close>

definition relationFields ::
  "(string \<times> mapping) list \<Rightarrow> attributes \<Rightarrow> (string \<times> (string \<times> string option \<times> attribute)) list" where
  "relationFields headerMapping attributes =
     foldl (\<lambda>acc (csvHeader, m).
              if map_isValid m \<and> \<not> map_isComponent m \<and> map_isDotNotation m then
                (case obj_get attributes (map_field m) of
                   Some attribute \<Rightarrow>
                     if attr_type attribute = ''relation''
                     then obj_set acc (map_field m) (csvHeader, map_relationField m, attribute)
                     else acc
                 | None \<Rightarrow> acc)
              else acc)
       [] headerMapping"

text \<open>Second loop: one relation field; the state is the pair of errors and warnings.\<close>

definition checkRelationField ::
  "(string \<Rightarrow> attributes option) \<Rightarrow> string list \<times> string list
     \<Rightarrow> string \<times> (string \<times> string option \<times> attribute) \<Rightarrow> string list \<times> string list" where
  "checkRelationField contentTypes st entry =
     (case (st, entry) of ((errors, warnings), (fieldName, (csvHeader, relationField, attribute))) \<Rightarrow>
        (case (attr_target attribute, relationField) of
           (Some targetContentType, Some searchField) \<Rightarrow>
             if targetContentType = [] \<or> searchField = [] then (errors, warnings)
             else
               (case contentTypes targetContentType of
                  None \<Rightarrow>
                    (errors, warnings @ [''Target content type '' @ dq @ targetContentType @ dq
                       @ '' not found for relation field '' @ dq @ fieldName @ dq])
                | Some targetAttributes \<Rightarrow>
                    (case obj_get targetAttributes searchField of
                       None \<Rightarrow>
                         (errors @ [''Target field '' @ dq @ searchField @ dq
                            @ '' not found in content type '' @ dq @ targetContentType @ dq
                            @ '' for relation field '' @ dq @ fieldName @ ''.'' @ searchField @ dq],
                          warnings)
                     | Some targetAttribute \<Rightarrow>
                         if \<not> attr_unique targetAttribute then
                           (errors @ [''Field '' @ dq @ searchField @ dq
                              @ '' in content type '' @ dq @ targetContentType @ dq
                              @ '' must be set as unique for relation field '' @ dq @ fieldName
                              @ ''.'' @ searchField @ dq],
                            warnings)
                         else (errors, warnings)))
         | _ \<Rightarrow> (errors, warnings)))"

definition validateRelationFieldUniqueness ::
  "(string \<Rightarrow> attributes option) \<Rightarrow> (string \<times> mapping) list \<Rightarrow> attributes
     \<Rightarrow> string list \<times> string list" where
  "validateRelationFieldUniqueness contentTypes headerMapping attributes =
     foldl (checkRelationField contentTypes) ([], []) (relationFields headerMapping attributes)"

text \<open>
  The regular expression \<open>^[^\s@]+@[^\s@]+\.[^\s@]+$\<close>: no white space, exactly one
  \<open>@\<close> with text before it, and after it a dot with text on both sides.
\<close>

definition emailRegexTest :: "string \<Rightarrow> bool" where
  "emailRegexTest s =
     ((\<forall>c \<in> set s. \<not> js_isWhiteSpace c)
      \<and> length (filter (\<lambda>c. c = CHR ''@'') s) = 1
      \<and> takeWhile (\<lambda>c. c \<noteq> CHR ''@'') s \<noteq> []
      \<and> (let domain = tl (dropWhile (\<lambda>c. c \<noteq> CHR ''@'') s)
         in \<exists>i \<in> set [1 ..< length domain - 1]. domain ! i = CHR ''.''))"

text \<open>
  The side-channel captures of a dotted header, stored in the validated row itself:
  \<open>__<field>_componentData\<close> is an object from subfield path to cell text,
  \<open>__<field>_dotNotation\<close> is the object \<open>{relationField, value}\<close>.
\<close>

definition componentDataKey :: "string \<Rightarrow> string" where
  "componentDataKey fieldName = ''__'' @ fieldName @ ''_componentData''"

definition dotNotationKey :: "string \<Rightarrow> string" where
  "dotNotationKey fieldName = ''__'' @ fieldName @ ''_dotNotation''"

definition relationFieldValue :: "string option \<Rightarrow> jsval" where
  "relationFieldValue r = (case r of None \<Rightarrow> VUndefined | Some s \<Rightarrow> VStr s)"

definition storeDotNotation :: "mapping \<Rightarrow> string \<Rightarrow> jsobj \<Rightarrow> jsobj" where
  "storeDotNotation m v validatedRow =
     (if map_isDotNotation m then
        (if map_isComponent m then
           (let key = componentDataKey (map_field m);
                componentData = (case obj_get validatedRow key of
                                   Some (VObj ob) \<Rightarrow> ob | _ \<Rightarrow> []);
                componentField = (case map_componentField m of None \<Rightarrow> ''undefined'' | Some f \<Rightarrow> f)
            in obj_set validatedRow key (VObj (obj_set componentData componentField (VStr v))))
         else
           obj_set validatedRow (dotNotationKey (map_field m))
             (VObj [(''relationField'', relationFieldValue (map_relationField m)),
                    (''value'', VStr v)]))
      else validatedRow)"

text \<open>The \<open>switch (attribute.type)\<close> on a present cell.\<close>

definition rowLabel :: "nat \<Rightarrow> string \<Rightarrow> string" where
  "rowLabel index fieldName = ''Row '' @ js_natToString (index + 1) @ '': '' @ dq @ fieldName @ dq"

definition coerceCell ::
  "(string \<Rightarrow> string option) \<Rightarrow> nat \<Rightarrow> string \<Rightarrow> attribute \<Rightarrow> string
     \<Rightarrow> jsobj \<times> string list \<Rightarrow> jsobj \<times> string list" where
  "coerceCell toISO index fieldName attribute v st =
     (case st of (validatedRow, rowErrors) \<Rightarrow>
        if attr_type attribute = ''integer'' \<or> attr_type attribute = ''biginteger'' then
          (case js_parseInt10 v of
             None \<Rightarrow> (validatedRow, rowErrors @ [rowLabel index fieldName @ '' must be a number''])
           | Some intVal \<Rightarrow> (obj_set validatedRow fieldName (VNum intVal), rowErrors))
        else if attr_type attribute = ''decimal'' \<or> attr_type attribute = ''float'' then
          (case js_parseFloat v of
             None \<Rightarrow> (validatedRow, rowErrors @ [rowLabel index fieldName @ '' must be a decimal number''])
           | Some floatVal \<Rightarrow> (obj_set validatedRow fieldName (VFloat floatVal), rowErrors))
        else if attr_type attribute = ''boolean'' then
          (let boolVal = js_toLowerCase v
           in if boolVal \<in> set [''true'', ''false'', ''1'', ''0'', ''yes'', ''no'']
              then (obj_set validatedRow fieldName (VBool (boolVal \<in> set [''true'', ''1'', ''yes''])),
                    rowErrors)
              else (validatedRow,
                    rowErrors @ [rowLabel index fieldName @ '' must be true/false, 1/0, or yes/no'']))
        else if attr_type attribute = ''date'' \<or> attr_type attribute = ''datetime''
                \<or> attr_type attribute = ''time'' then
          (case toISO v of
             None \<Rightarrow> (validatedRow, rowErrors @ [rowLabel index fieldName @ '' must be a valid date''])
           | Some isoString \<Rightarrow> (obj_set validatedRow fieldName (VStr isoString), rowErrors))
        else if attr_type attribute = ''email'' then
          (if \<not> emailRegexTest v
           then (validatedRow, rowErrors @ [rowLabel index fieldName @ '' must be a valid email''])
           else (obj_set validatedRow fieldName (VStr v), rowErrors))
        else if attr_type attribute = ''enumeration'' then
          (case attr_enum attribute of
             None \<Rightarrow> (obj_set validatedRow fieldName (VStr v), rowErrors)
           | Some enum \<Rightarrow>
               if v \<notin> set enum
               then (validatedRow,
                     rowErrors @ [rowLabel index fieldName @ '' must be one of: '' @ js_join '', '' enum])
               else (obj_set validatedRow fieldName (VStr v), rowErrors))
        else if attr_type attribute = ''relation'' then
          (obj_set validatedRow fieldName (VStr v), rowErrors)
        else if attr_type attribute = ''component'' then
          (validatedRow, rowErrors)
        else (obj_set validatedRow fieldName (VStr v), rowErrors))"

text \<open>
  The body of \<open>Object.keys(row).forEach\<close>: one header of the row with its cell. A valid
  mapping always names an attribute of the schema (see \<open>headerEntry\<close>), so the last
  branch of the lookup is never taken on a mapping that \<open>parseHeaderMapping\<close> built.
\<close>

definition validateHeader ::
  "(string \<Rightarrow> string option) \<Rightarrow> attributes \<Rightarrow> (string \<times> mapping) list \<Rightarrow> nat
     \<Rightarrow> jsobj \<times> string list \<Rightarrow> string \<times> string \<Rightarrow> jsobj \<times> string list" where
  "validateHeader toISO attributes headerMapping index st cell =
     (case cell of (csvHeader, v) \<Rightarrow>
        (case obj_get headerMapping csvHeader of
           None \<Rightarrow> st
         | Some m \<Rightarrow>
             if \<not> map_isValid m then st
             else
               (case obj_get attributes (map_field m) of
                  None \<Rightarrow> st
                | Some attribute \<Rightarrow>
                    (let st1 = (storeDotNotation m v (fst st), snd st)
                     in if v \<noteq> [] then coerceCell toISO index (map_field m) attribute v st1
                        else if attr_required attribute \<and> \<not> js_truthy (attr_default attribute)
                                \<and> \<not> map_isDotNotation m
                          then (fst st1, snd st1 @ [''Row '' @ js_natToString (index + 1)
                                  @ '': Required field '' @ dq @ map_field m @ dq @ '' is missing''])
                        else st1))))"

record rowResult =
  row_data :: jsobj
  row_errors :: "string list"
  row_originalRow :: rawrow

definition validateRow ::
  "(string \<Rightarrow> string option) \<Rightarrow> attributes \<Rightarrow> (string \<times> mapping) list \<Rightarrow> nat \<Rightarrow> rawrow
     \<Rightarrow> rowResult" where
  "validateRow toISO attributes headerMapping index row =
     (let st = foldl (validateHeader toISO attributes headerMapping index) ([], []) row
      in \<lparr>row_data = fst st, row_errors = snd st, row_originalRow = row\<rparr>)"

text \<open>The result of \<open>validateCsvData\<close>; the empty-file return has no \<open>invalidRows\<close>.\<close>

record validation =
  val_errors :: "string list"
  val_warnings :: "string list"
  val_validData :: "jsobj list"
  val_invalidRows :: "rowResult list option"

definition requiredFields :: "attributes \<Rightarrow> string list" where
  "requiredFields attributes =
     map fst (filter (\<lambda>(attr, attribute). attr_required attribute \<and> \<not> js_truthy (attr_default attribute))
                attributes)"

definition missingRequired :: "(string \<times> mapping) list \<Rightarrow> attributes \<Rightarrow> string list" where
  "missingRequired headerMapping attributes =
     (let mappedFieldNames = map (\<lambda>(header, m). map_field m) headerMapping
      in filter (\<lambda>field. field \<notin> set mappedFieldNames) (requiredFields attributes))"

definition unknownFields :: "string list \<Rightarrow> (string \<times> mapping) list \<Rightarrow> string list" where
  "unknownFields csvHeaders headerMapping =
     filter (\<lambda>header. case obj_get headerMapping header of
                        None \<Rightarrow> True
                      | Some m \<Rightarrow> \<not> map_isValid m \<and> \<not> map_isDotNotation m)
       csvHeaders"

definition validateRows ::
  "(string \<Rightarrow> string option) \<Rightarrow> attributes \<Rightarrow> (string \<times> mapping) list \<Rightarrow> rawrow list
     \<Rightarrow> rowResult list" where
  "validateRows toISO attributes headerMapping data =
     map (\<lambda>(index, row). validateRow toISO attributes headerMapping index row)
       (zip [0 ..< length data] data)"

definition validateCsvData ::
  "(string \<Rightarrow> string option) \<Rightarrow> (string \<Rightarrow> attributes option) \<Rightarrow> rawrow list \<Rightarrow> attributes
     \<Rightarrow> validation" where
  "validateCsvData toISO contentTypes data attributes =
     (case data of
        [] \<Rightarrow> \<lparr>val_errors = [''CSV file is empty or invalid''], val_warnings = [],
               val_validData = [], val_invalidRows = None\<rparr>
      | firstRow # _ \<Rightarrow>
          (let csvHeaders = map fst firstRow;
               headerMapping = parseHeaderMapping csvHeaders attributes;
               missing = missingRequired headerMapping attributes;
               errors1 = (if missing \<noteq> []
                          then [''Missing required fields: '' @ js_join '', '' missing] else []);
               unknown = unknownFields csvHeaders headerMapping;
               warnings1 = (if unknown \<noteq> []
                            then [''Unknown fields (will be ignored): '' @ js_join '', '' unknown]
                            else []);
               relationUnique = validateRelationFieldUniqueness contentTypes headerMapping attributes;
               errors2 = errors1 @ fst relationUnique;
               warnings2 = warnings1 @ snd relationUnique;
               validData = validateRows toISO attributes headerMapping data;
               allRowErrors = concat (map row_errors validData)
           in \<lparr>val_errors = errors2 @ allRowErrors,
               val_warnings = warnings2,
               val_validData = map row_data (filter (\<lambda>r. row_errors r = []) validData),
               val_invalidRows = Some (filter (\<lambda>r. row_errors r \<noteq> []) validData)\<rparr>))"

section \<open>Numbers read from values\<close>

text \<open>
  \<open>String(v)\<close>. An integer is rendered in decimal (as JavaScript does below \<open>10^21\<close>),
  a double by the text of its literal.
\<close>

fun js_String :: "jsval \<Rightarrow> string" where
  "js_String VUndefined = ''undefined''"
| "js_String VNull = ''null''"
| "js_String (VBool b) = (if b then ''true'' else ''false'')"
| "js_String (VNum n) = (if n < 0 then CHR ''-'' # js_natToString (nat (- n)) else js_natToString (nat n))"
| "js_String (VFloat t) = t"
| "js_String (VStr s) = s"
| "js_String (VArr xs) =
     js_join '','' (map (\<lambda>x. if x = VUndefined \<or> x = VNull then [] else js_String x) xs)"
| "js_String (VObj ob) = ''[object Object]''"

definition js_isHexDigit :: "char \<Rightarrow> bool" where
  "js_isHexDigit c = (c \<in> set ''0123456789abcdefABCDEF'')"

text \<open>\<open>0x\<close>, \<open>0o\<close> and \<open>0b\<close> literals: the prefix, then only digits of the radix, at least one.\<close>

definition js_radixLiteral :: "string \<Rightarrow> bool" where
  "js_radixLiteral t =
     (case t of
        c0 # c1 # ds \<Rightarrow>
          c0 = CHR ''0'' \<and> ds \<noteq> []
          \<and> ((c1 \<in> set ''xX'' \<and> (\<forall>d \<in> set ds. js_isHexDigit d))
             \<or> (c1 \<in> set ''oO'' \<and> (\<forall>d \<in> set ds. d \<in> set ''01234567''))
             \<or> (c1 \<in> set ''bB'' \<and> (\<forall>d \<in> set ds. d \<in> set ''01'')))
      | _ \<Rightarrow> False)"

text \<open>A signed decimal literal that is the whole string: \<open>Infinity\<close>, or digits with an
  optional fraction and exponent and at least one digit in the mantissa.\<close>

definition js_decimalLiteral :: "string \<Rightarrow> bool" where
  "js_decimalLiteral t =
     (let (sg, u) = js_sign t
      in u = ''Infinity''
         \<or> (let ip = takeWhile js_isDigit u;
                 r1 = dropWhile js_isDigit u;
                 dot = (r1 \<noteq> [] \<and> hd r1 = CHR ''.'');
                 fp = (if dot then takeWhile js_isDigit (tl r1) else []);
                 r2 = (if dot then dropWhile js_isDigit (tl r1) else r1)
             in (ip \<noteq> [] \<or> fp \<noteq> []) \<and> js_exponent r2 = r2))"

text \<open>\<open>isNaN(Number(s))\<close> for a string: white space around is dropped, the empty string is 0.\<close>

definition js_NumberIsNaN :: "string \<Rightarrow> bool" where
  "js_NumberIsNaN s =
     (let t = js_trim s in \<not> (t = [] \<or> js_radixLiteral t \<or> js_decimalLiteral t))"

text \<open>\<open>isNaN(parseInt(s))\<close> with no radix: a \<open>0x\<close> prefix selects radix 16.\<close>

definition js_parseIntIsNaN :: "string \<Rightarrow> bool" where
  "js_parseIntIsNaN s =
     (let (sg, u) = js_sign (js_trimStart s)
      in if js_startsWith u ''0x'' \<or> js_startsWith u ''0X''
         then takeWhile js_isHexDigit (drop 2 u) = []
         else takeWhile js_isDigit u = [])"

text \<open>\<open>isNaN(Number(v))\<close> for a value.\<close>

fun js_isNaN_Number :: "jsval \<Rightarrow> bool" where
  "js_isNaN_Number VUndefined = True"
| "js_isNaN_Number VNull = False"
| "js_isNaN_Number (VBool b) = False"
| "js_isNaN_Number (VNum n) = False"
| "js_isNaN_Number (VFloat t) = False"
| "js_isNaN_Number (VStr s) = js_NumberIsNaN s"
| "js_isNaN_Number (VArr xs) = js_NumberIsNaN (js_String (VArr xs))"
| "js_isNaN_Number (VObj ob) = js_NumberIsNaN (js_String (VObj ob))"

text \<open>The test \<open>!isNaN(Number(value)) && !isNaN(parseInt(String(value)))\<close>.\<close>

definition js_isNumeric :: "jsval \<Rightarrow> bool" where
  "js_isNumeric v = (\<not> js_isNaN_Number v \<and> \<not> js_parseIntIsNaN (js_String v))"

section \<open>The entity service\<close>

text \<open>
  \<open>strapi.entityService\<close> is an external store. A call runs in a world \<open>'w\<close> (the state
  of the store, whatever it is), returns or throws an error with a message, and leaves a
  new world. The filters are the four shapes the service sends, all with \<open>limit: 1\<close>:
  \<open>{[f]: {$eqi: v}}\<close>, \<open>{[f]: {$containsi: v}}\<close>, \<open>{id: Number(v)}\<close> (kept as the
  value \<open>v\<close> it is computed from) and \<open>{[f]: v}\<close>. A result that is \<open>null\<close> is the empty
  list.
\<close>

datatype 'a outcome = Threw string | Returned 'a

datatype filter =
    Eqi string jsval
  | Containsi string jsval
  | IdEquals jsval
  | FieldEquals string jsval

record 'w entityService =
  es_findMany :: "string option \<Rightarrow> filter \<Rightarrow> 'w \<Rightarrow> jsobj list outcome \<times> 'w"
  es_create :: "string \<Rightarrow> jsobj \<Rightarrow> 'w \<Rightarrow> unit outcome \<times> 'w"
  es_update :: "string \<Rightarrow> jsval \<Rightarrow> jsobj \<Rightarrow> 'w \<Rightarrow> unit outcome \<times> 'w"

text \<open>\<open>await\<close>: run a call, and continue with its result unless it threw.\<close>

definition await :: "('w \<Rightarrow> 'a outcome \<times> 'w) \<Rightarrow> ('a \<Rightarrow> 'w \<Rightarrow> 'b outcome \<times> 'w) \<Rightarrow> 'w \<Rightarrow> 'b outcome \<times> 'w" where
  "await m f w = (case m w of (Threw e, w') \<Rightarrow> (Threw e, w') | (Returned x, w') \<Rightarrow> f x w')"

definition return :: "'a \<Rightarrow> 'w \<Rightarrow> 'a outcome \<times> 'w" where
  "return x w = (Returned x, w)"

text \<open>The calls a run makes, in order, for a service wrapped by \<open>recording\<close>.\<close>

datatype call =
    FindManyCall "string option" filter
  | CreateCall string jsobj
  | UpdateCall string jsval jsobj

definition recording :: "'w entityService \<Rightarrow> ('w \<times> call list) entityService" where
  "recording es =
     \<lparr>es_findMany = (\<lambda>uid f (w, log).
        case es_findMany es uid f w of (r, w') \<Rightarrow> (r, (w', log @ [FindManyCall uid f]))),
      es_create = (\<lambda>uid item (w, log).
        case es_create es uid item w of (r, w') \<Rightarrow> (r, (w', log @ [CreateCall uid item]))),
      es_update = (\<lambda>uid ident item (w, log).
        case es_update es uid ident item w of (r, w') \<Rightarrow> (r, (w', log @ [UpdateCall uid ident item])))\<rparr>"

section \<open>Relation resolution\<close>

definition schemaOf :: "(string \<Rightarrow> attributes option) \<Rightarrow> string option \<Rightarrow> attributes option" where
  "schemaOf contentTypes targetContentType =
     (case targetContentType of None \<Rightarrow> None | Some uid \<Rightarrow> contentTypes uid)"

definition commonFields :: "string list" where
  "commonFields = [''name'', ''title'', ''slug'', ''displayName'', ''label'', ''country'']"

definition searchFieldsOf :: "attributes \<Rightarrow> string list" where
  "searchFieldsOf attributes =
     filter (\<lambda>field. case obj_get attributes field of
                       Some a \<Rightarrow> attr_type a = ''string'' | None \<Rightarrow> False)
       commonFields"

text \<open>The loop \<open>for (const field of searchFields)\<close>: exact match on each field in turn.\<close>

fun exactScan ::
  "'w entityService \<Rightarrow> string option \<Rightarrow> jsval \<Rightarrow> string list \<Rightarrow> 'w \<Rightarrow> jsobj option outcome \<times> 'w" where
  "exactScan es target v [] w = (Returned None, w)"
| "exactScan es target v (field # rest) w =
     await (es_findMany es target (Eqi field v))
       (\<lambda>entities. case entities of
                      e # _ \<Rightarrow> return (Some e)
                    | [] \<Rightarrow> exactScan es target v rest) w"

text \<open>From \<open>const schema = strapi.contentTypes[targetContentType]\<close> to the final \<open>return null\<close>.\<close>

definition commonFieldLookup ::
  "'w entityService \<Rightarrow> (string \<Rightarrow> attributes option) \<Rightarrow> string option \<Rightarrow> jsval
     \<Rightarrow> 'w \<Rightarrow> jsobj option outcome \<times> 'w" where
  "commonFieldLookup es contentTypes target v =
     (case schemaOf contentTypes target of
        None \<Rightarrow> return None
      | Some attributes \<Rightarrow>
          await (exactScan es target v (searchFieldsOf attributes))
            (\<lambda>hit. case hit of
                     Some e \<Rightarrow> return (Some e)
                   | None \<Rightarrow>
                       (case searchFieldsOf attributes of
                          [] \<Rightarrow> return None
                        | first # _ \<Rightarrow>
                            await (es_findMany es target (Containsi first v))
                              (\<lambda>entities. case entities of
                                             e # _ \<Rightarrow> return (Some e)
                                           | [] \<Rightarrow> return None))))"

text \<open>From \<open>if (!isNaN(Number(value)) && ...)\<close> on: the identifier branch, then the rest.\<close>

definition identifierLookup ::
  "'w entityService \<Rightarrow> (string \<Rightarrow> attributes option) \<Rightarrow> string option \<Rightarrow> jsval
     \<Rightarrow> 'w \<Rightarrow> jsobj option outcome \<times> 'w" where
  "identifierLookup es contentTypes target v =
     (if js_isNumeric v then
        await (es_findMany es target (IdEquals v))
          (\<lambda>entityById. case entityById of
                          e # _ \<Rightarrow> return (Some e)
                        | [] \<Rightarrow> commonFieldLookup es contentTypes target v)
      else commonFieldLookup es contentTypes target v)"

text \<open>The \<open>try\<close> block of \<open>findRelatedEntity\<close>; \<open>searchField\<close> is \<open>None\<close> for \<open>null\<close>.\<close>

definition findRelatedEntity_try ::
  "'w entityService \<Rightarrow> (string \<Rightarrow> attributes option) \<Rightarrow> string option \<Rightarrow> jsval \<Rightarrow> string option
     \<Rightarrow> 'w \<Rightarrow> jsobj option outcome \<times> 'w" where
  "findRelatedEntity_try es contentTypes target v searchField =
     (case searchField of
        None \<Rightarrow> identifierLookup es contentTypes target v
      | Some sf \<Rightarrow>
          if sf \<noteq> []
             \<and> (case schemaOf contentTypes target of
                   Some attributes \<Rightarrow> obj_get attributes sf \<noteq> None | None \<Rightarrow> False)
          then
            await (es_findMany es target (Eqi sf v))
              (\<lambda>entities. case entities of
                 e # _ \<Rightarrow> return (Some e)
               | [] \<Rightarrow>
                   await (es_findMany es target (Containsi sf v))
                     (\<lambda>partialEntities. case partialEntities of
                        e # _ \<Rightarrow> return (Some e)
                      | [] \<Rightarrow> identifierLookup es contentTypes target v))
          else identifierLookup es contentTypes target v)"

text \<open>\<open>findRelatedEntity\<close>: the \<open>catch\<close> turns any thrown error into \<open>null\<close>.\<close>

definition findRelatedEntity ::
  "'w entityService \<Rightarrow> (string \<Rightarrow> attributes option) \<Rightarrow> string option \<Rightarrow> jsval \<Rightarrow> string option
     \<Rightarrow> 'w \<Rightarrow> jsobj option \<times> 'w" where
  "findRelatedEntity es contentTypes target v searchField w =
     (case findRelatedEntity_try es contentTypes target v searchField w of
        (Threw e, w') \<Rightarrow> (None, w')
      | (Returned r, w') \<Rightarrow> (r, w'))"

text \<open>\<open>v.k\<close> on a value that is not null or undefined: only an object has properties here.\<close>

definition js_prop :: "jsval \<Rightarrow> string \<Rightarrow> jsval" where
  "js_prop v k = (case v of VObj ob \<Rightarrow> obj_read ob k | _ \<Rightarrow> VUndefined)"

text \<open>The search field of a capture: the captures hold a string or nothing.\<close>

definition asSearchField :: "jsval \<Rightarrow> string option" where
  "asSearchField v = (case v of VStr s \<Rightarrow> Some s | _ \<Rightarrow> None)"

text \<open>The loop \<open>for (const value of values)\<close> of the to-many case.\<close>

fun resolveAll ::
  "'w entityService \<Rightarrow> (string \<Rightarrow> attributes option) \<Rightarrow> string option \<Rightarrow> string option
     \<Rightarrow> string list \<Rightarrow> jsobj list \<Rightarrow> 'w \<Rightarrow> jsobj list \<times> 'w" where
  "resolveAll es contentTypes target searchField [] relatedEntities w = (relatedEntities, w)"
| "resolveAll es contentTypes target searchField (v # values) relatedEntities w =
     (case findRelatedEntity es contentTypes target (VStr v) searchField w of
        (Some entity, w') \<Rightarrow>
          resolveAll es contentTypes target searchField values (relatedEntities @ [entity]) w'
      | (None, w') \<Rightarrow>
          resolveAll es contentTypes target searchField values relatedEntities w')"

definition entityId :: "jsobj \<Rightarrow> jsval" where
  "entityId entity = obj_read entity ''id''"

text \<open>
  The raw relation value of a field in a row and its search field, as \<open>processRelations\<close>
  reads them: from the capture of a dotted header if there is one, else from the plain
  field if it is set; \<open>None\<close> is the \<open>continue\<close>.
\<close>

definition relationInput :: "jsobj \<Rightarrow> string \<Rightarrow> (jsval \<times> string option) option" where
  "relationInput row fieldName =
     (let dotNotationData = obj_read row (dotNotationKey fieldName)
      in if js_truthy dotNotationData
         then Some (js_prop dotNotationData ''value'',
                    asSearchField (js_prop dotNotationData ''relationField''))
         else if js_truthy (obj_read row fieldName)
         then Some (obj_read row fieldName, None)
         else None)"

text \<open>
  The body of \<open>for (const fieldName of Object.keys(attributes))\<close> in \<open>processRelations\<close>.
  In the to-many case a relation value that is not a string has no \<open>split\<close>: the
  \<open>TypeError\<close> is caught and the field deleted.
\<close>

definition processRelationField ::
  "'w entityService \<Rightarrow> (string \<Rightarrow> attributes option) \<Rightarrow> jsobj \<Rightarrow> jsobj \<times> 'w
     \<Rightarrow> string \<times> attribute \<Rightarrow> jsobj \<times> 'w" where
  "processRelationField es contentTypes row st entry =
     (case (st, entry) of ((processedRow, w), (fieldName, attribute)) \<Rightarrow>
        if attr_type attribute \<noteq> ''relation'' then (processedRow, w)
        else
          (case relationInput row fieldName of
                None \<Rightarrow> (processedRow, w)
              | Some (relationValue, searchField) \<Rightarrow>
                  if attr_relation attribute = ''oneToOne'' \<or> attr_relation attribute = ''manyToOne'' then
                    (case findRelatedEntity es contentTypes (attr_target attribute) relationValue searchField w of
                       (Some relatedEntity, w') \<Rightarrow>
                         (obj_set processedRow fieldName (entityId relatedEntity), w')
                     | (None, w') \<Rightarrow> (obj_delete processedRow fieldName, w'))
                  else if attr_relation attribute = ''oneToMany'' \<or> attr_relation attribute = ''manyToMany'' then
                    (case relationValue of
                       VStr s \<Rightarrow>
                         (case resolveAll es contentTypes (attr_target attribute) searchField
                                 (map js_trim (js_split CHR '','' s)) [] w of
                            (relatedEntities, w') \<Rightarrow>
                              if relatedEntities \<noteq> []
                              then (obj_set processedRow fieldName (VArr (map entityId relatedEntities)), w')
                              else (obj_delete processedRow fieldName, w'))
                     | _ \<Rightarrow> (obj_delete processedRow fieldName, w))
                  else (processedRow, w)))"

definition isDotNotationKey :: "string \<Rightarrow> bool" where
  "isDotNotationKey key = (js_startsWith key ''__'' \<and> js_endsWith key ''_dotNotation'')"

text \<open>One row of \<open>processRelations\<close>: every attribute in turn, then the clean-up of the
  temporary keys.\<close>

definition processRelationsRow ::
  "'w entityService \<Rightarrow> (string \<Rightarrow> attributes option) \<Rightarrow> attributes \<Rightarrow> jsobj \<Rightarrow> 'w \<Rightarrow> jsobj \<times> 'w" where
  "processRelationsRow es contentTypes attributes row w =
     (case foldl (processRelationField es contentTypes row) (row, w) attributes of
        (processedRow, w') \<Rightarrow> (filter (\<lambda>(key, v). \<not> isDotNotationKey key) processedRow, w'))"

fun processRelations ::
  "'w entityService \<Rightarrow> (string \<Rightarrow> attributes option) \<Rightarrow> jsobj list \<Rightarrow> attributes \<Rightarrow> 'w
     \<Rightarrow> jsobj list \<times> 'w" where
  "processRelations es contentTypes [] attributes w = ([], w)"
| "processRelations es contentTypes (row # rows) attributes w =
     (case processRelationsRow es contentTypes attributes row w of
        (processedRow, w') \<Rightarrow>
          (case processRelations es contentTypes rows attributes w' of
             (processedData, w'') \<Rightarrow> (processedRow # processedData, w'')))"

section \<open>Values of a nested record\<close>

text \<open>The body of the loop of \<open>processComponentData\<close>: one captured subfield.\<close>

definition processComponentField ::
  "'w entityService \<Rightarrow> (string \<Rightarrow> attributes option) \<Rightarrow> (string \<Rightarrow> string option) \<Rightarrow> attributes
     \<Rightarrow> jsobj \<times> 'w \<Rightarrow> string \<times> string \<Rightarrow> jsobj \<times> 'w" where
  "processComponentField es contentTypes toISO componentAttributes st entry =
     (case (st, entry) of ((processedData, w), (fieldName, v)) \<Rightarrow>
        if v = [] then (processedData, w)
        else
          (case js_split CHR ''.'' fieldName of
             [] \<Rightarrow> (processedData, w)
           | actualFieldName # rest \<Rightarrow>
               (let searchField = (case rest of [] \<Rightarrow> None | s # _ \<Rightarrow> Some s)
                in case obj_get componentAttributes actualFieldName of
                     None \<Rightarrow> (processedData, w)
                   | Some attribute \<Rightarrow>
                       if attr_type attribute = ''relation'' then
                         (case findRelatedEntity es contentTypes (attr_target attribute) (VStr v) searchField w of
                            (Some relatedEntity, w') \<Rightarrow>
                              (obj_set processedData actualFieldName (entityId relatedEntity), w')
                          | (None, w') \<Rightarrow> (processedData, w'))
                       else
                         (obj_set processedData actualFieldName
                            (convertComponentFieldValue toISO v attribute), w))))"

text \<open>\<open>processComponentData\<close>: \<open>None\<close> is the \<open>null\<close> returned when nothing was written.\<close>

definition processComponentData ::
  "'w entityService \<Rightarrow> (string \<Rightarrow> attributes option) \<Rightarrow> (string \<Rightarrow> string option) \<Rightarrow> rawrow
     \<Rightarrow> attributes \<Rightarrow> 'w \<Rightarrow> jsobj option \<times> 'w" where
  "processComponentData es contentTypes toISO componentData componentAttributes w =
     (case foldl (processComponentField es contentTypes toISO componentAttributes) ([], w) componentData of
        (processedData, w') \<Rightarrow> (if processedData \<noteq> [] then Some processedData else None, w'))"

section \<open>Import\<close>

text \<open>
  The options of \<open>importData\<close> and its result. \<open>processMediaFields\<close> is a parameter
  \<open>pmf\<close> of the model: applied to the item, the mappings and the upsert field, it gives
  the item as that call leaves it. It catches its own errors and calls no entity service,
  so it neither throws nor changes the world.
\<close>

record 'm importOptions =
  opt_upsert :: bool
  opt_batchSize :: nat
  opt_upsertField :: string
  opt_mediaFieldMappings :: "'m list"

record importResults =
  res_created :: nat
  res_updated :: nat
  res_errors :: "(jsobj \<times> string) list"

text \<open>\<open>findExistingRecord\<close>: its own \<open>catch\<close> returns \<open>null\<close>.\<close>

definition findExistingRecord ::
  "'w entityService \<Rightarrow> string \<Rightarrow> string \<Rightarrow> jsval \<Rightarrow> 'w \<Rightarrow> jsobj option \<times> 'w" where
  "findExistingRecord es contentTypeUid fieldName fieldValue w =
     (case es_findMany es (Some contentTypeUid) (FieldEquals fieldName fieldValue) w of
        (Threw e, w') \<Rightarrow> (None, w')
      | (Returned entities, w') \<Rightarrow> (case entities of [] \<Rightarrow> None | e # _ \<Rightarrow> Some e, w'))"

text \<open>The \<open>try\<close> block for one item, after the media step.\<close>

definition importItem_try ::
  "'w entityService \<Rightarrow> string \<Rightarrow> 'm importOptions \<Rightarrow> importResults \<Rightarrow> jsobj
     \<Rightarrow> 'w \<Rightarrow> importResults outcome \<times> 'w" where
  "importItem_try es contentTypeUid opts results item =
     (if opt_upsert opts \<and> js_truthy (obj_read item (opt_upsertField opts)) then
        (\<lambda>w. case findExistingRecord es contentTypeUid (opt_upsertField opts)
                     (obj_read item (opt_upsertField opts)) w of
                (Some existing, w') \<Rightarrow>
                  await (es_update es contentTypeUid (entityId existing) item)
                    (\<lambda>u. return (results\<lparr>res_updated := res_updated results + 1\<rparr>)) w'
              | (None, w') \<Rightarrow>
                  await (es_create es contentTypeUid item)
                    (\<lambda>u. return (results\<lparr>res_created := res_created results + 1\<rparr>)) w')
      else
        await (es_create es contentTypeUid item)
          (\<lambda>u. return (results\<lparr>res_created := res_created results + 1\<rparr>)))"

definition mediaStep :: "(jsobj \<Rightarrow> 'm list \<Rightarrow> string \<Rightarrow> jsobj) \<Rightarrow> 'm importOptions \<Rightarrow> jsobj \<Rightarrow> jsobj" where
  "mediaStep pmf opts item =
     (if opt_mediaFieldMappings opts \<noteq> []
      then pmf item (opt_mediaFieldMappings opts) (opt_upsertField opts) else item)"

text \<open>The body of \<open>for (const item of batch)\<close>: the \<open>try\<close> block and its \<open>catch\<close>.\<close>

definition importItem ::
  "(jsobj \<Rightarrow> 'm list \<Rightarrow> string \<Rightarrow> jsobj) \<Rightarrow> 'w entityService \<Rightarrow> string \<Rightarrow> 'm importOptions
     \<Rightarrow> importResults \<times> 'w \<Rightarrow> jsobj \<Rightarrow> importResults \<times> 'w" where
  "importItem pmf es contentTypeUid opts st item0 =
     (case st of (results, w) \<Rightarrow>
        (let item = mediaStep pmf opts item0
         in case importItem_try es contentTypeUid opts results item w of
              (Threw message, w') \<Rightarrow>
                (results\<lparr>res_errors := res_errors results @ [(item, message)]\<rparr>, w')
            | (Returned results', w') \<Rightarrow> (results', w')))"

text \<open>
  The loop \<open>for (let i = 0; i < validData.length; i += batchSize)\<close>. With a batch size of
  0 it never ends on a non-empty list, so the loop is a partial function: \<open>None\<close> is a
  run that does not return.
\<close>

partial_function (option) importBatches ::
  "(importResults \<times> 'w \<Rightarrow> jsobj \<Rightarrow> importResults \<times> 'w) \<Rightarrow> nat \<Rightarrow> jsobj list \<Rightarrow> nat
     \<Rightarrow> importResults \<times> 'w \<Rightarrow> (importResults \<times> 'w) option" where
  "importBatches step batchSize validData i st =
     (if i < length validData
      then importBatches step batchSize validData (i + batchSize)
             (foldl step st (take batchSize (drop i validData)))
      else Some st)"

declare importBatches.simps [code]

definition importData ::
  "(jsobj \<Rightarrow> 'm list \<Rightarrow> string \<Rightarrow> jsobj) \<Rightarrow> 'w entityService \<Rightarrow> string \<Rightarrow> jsobj list
     \<Rightarrow> 'm importOptions \<Rightarrow> 'w \<Rightarrow> (importResults \<times> 'w) option" where
  "importData pmf es contentTypeUid validData opts w =
     importBatches (importItem pmf es contentTypeUid opts) (opt_batchSize opts) validData 0
       (\<lparr>res_created = 0, res_updated = 0, res_errors = []\<rparr>, w)"

section \<open>The statements of the specification\<close>

text \<open>
  Repeatable nested records, in the words of the specification: every captured value is
  comma-split, the longest split gives the number of entries, entry \<open>i\<close> takes the
  \<open>i\<close>-th segment of each subfield unless the split is shorter or the segment empty, and
  an entry with no subfield is dropped.
\<close>

definition segments :: "string \<Rightarrow> string list" where
  "segments v = map js_trim (js_split CHR '','' v)"

definition longestSplit :: "rawrow \<Rightarrow> nat" where
  "longestSplit capture = foldr (\<lambda>(k, v) n. max (length (segments v)) n) capture 0"

definition entryAt :: "rawrow \<Rightarrow> nat \<Rightarrow> rawrow" where
  "entryAt capture i =
     concat (map (\<lambda>(k, v). if i < length (segments v) \<and> segments v ! i \<noteq> []
                             then [(k, segments v ! i)] else []) capture)"

definition repeatableEntries :: "rawrow \<Rightarrow> rawrow list" where
  "repeatableEntries capture =
     filter (\<lambda>entry. entry \<noteq> []) (map (entryAt capture) [0 ..< longestSplit capture])"

text \<open>
  The lookups of the segments of a to-many relation value, one after the other: the result
  of each, in input order.
\<close>

fun lookups ::
  "'w entityService \<Rightarrow> (string \<Rightarrow> attributes option) \<Rightarrow> string option \<Rightarrow> string option
     \<Rightarrow> string list \<Rightarrow> 'w \<Rightarrow> jsobj option list \<times> 'w" where
  "lookups es contentTypes target searchField [] w = ([], w)"
| "lookups es contentTypes target searchField (v # values) w =
     (case findRelatedEntity es contentTypes target (VStr v) searchField w of
        (r, w') \<Rightarrow>
          (case lookups es contentTypes target searchField values w' of
             (rs, w'') \<Rightarrow> (r # rs, w'')))"

text \<open>The identifiers found, skipping the segments that did not resolve.\<close>

definition foundIds :: "jsobj option list \<Rightarrow> jsval list" where
  "foundIds rs = concat (map (\<lambda>r. case r of None \<Rightarrow> [] | Some e \<Rightarrow> [entityId e]) rs)"

text \<open>
  The guard of the first branch of \<open>findRelatedEntity\<close>: an explicit subfield is given,
  it is not empty, and the target schema declares it.
\<close>

definition declaredSubfield :: "(string \<Rightarrow> attributes option) \<Rightarrow> string option \<Rightarrow> string option \<Rightarrow> bool" where
  "declaredSubfield contentTypes target searchField =
     (case searchField of
        None \<Rightarrow> False
      | Some sf \<Rightarrow> sf \<noteq> [] \<and> (case schemaOf contentTypes target of
                                 Some attributes \<Rightarrow> obj_get attributes sf \<noteq> None
                               | None \<Rightarrow> False))"

text \<open>Attribute names are identifiers: none looks like a side-channel key.\<close>

definition plainNames :: "attributes \<Rightarrow> bool" where
  "plainNames attributes = list_all (\<lambda>(name, a). \<not> js_startsWith name ''__'') attributes"

text \<open>
  The create or update call a row makes, with its outcome: the update of the record the
  lookup found, else a creation.
\<close>

definition persistenceCall ::
  "'w entityService \<Rightarrow> string \<Rightarrow> 'm importOptions \<Rightarrow> jsobj \<Rightarrow> 'w \<Rightarrow> unit outcome \<times> 'w" where
  "persistenceCall es contentTypeUid opts item w =
     (if opt_upsert opts \<and> js_truthy (obj_read item (opt_upsertField opts)) then
        (case findExistingRecord es contentTypeUid (opt_upsertField opts)
                (obj_read item (opt_upsertField opts)) w of
           (Some existing, w') \<Rightarrow> es_update es contentTypeUid (entityId existing) item w'
         | (None, w') \<Rightarrow> es_create es contentTypeUid item w')
      else es_create es contentTypeUid item w)"

text \<open>
  The first lookup of \<open>findRelatedEntity\<close> by priority: exact match on an explicit
  subfield that the target schema declares; else by identifier for a numeric value; else
  exact match on the first common string field of the target schema.
\<close>

definition firstLookup ::
  "(string \<Rightarrow> attributes option) \<Rightarrow> string option \<Rightarrow> jsval \<Rightarrow> string option \<Rightarrow> filter option" where
  "firstLookup contentTypes target v searchField =
     (if declaredSubfield contentTypes target searchField
      then (case searchField of None \<Rightarrow> None | Some sf \<Rightarrow> Some (Eqi sf v))
      else if js_isNumeric v then Some (IdEquals v)
      else (case schemaOf contentTypes target of
              None \<Rightarrow> None
            | Some attributes \<Rightarrow>
                (case searchFieldsOf attributes of
                   [] \<Rightarrow> None
                 | field # _ \<Rightarrow> Some (Eqi field v))))"

text \<open>
  A relation capture is an object \<open>{relationField, value}\<close> whose value is a string. A
  validated row carries a dotted relation when the plain field holds the raw string and the
  side-channel key holds a capture.
\<close>

fun isCapture :: "jsval \<Rightarrow> bool" where
  "isCapture (VObj [(k1, rf), (k2, VStr val)]) = (k1 = ''relationField'' \<and> k2 = ''value'')"
| "isCapture _ = False"

definition carriesRelation :: "string \<Rightarrow> string \<Rightarrow> jsobj \<Rightarrow> bool" where
  "carriesRelation f v validatedRow =
     (obj_get validatedRow f = Some (VStr v)
      \<and> (case obj_get validatedRow (dotNotationKey f) of
            None \<Rightarrow> False | Some capture \<Rightarrow> isCapture capture))"

section \<open>Example schemas and stores\<close>

definition plainAttribute :: "string \<Rightarrow> attribute" where
  "plainAttribute ty =
     \<lparr>attr_type = ty, attr_required = False, attr_default = VUndefined, attr_unique = False,
      attr_enum = None, attr_relation = [], attr_target = None, attr_component = [],
      attr_repeatable = False\<rparr>"

definition relationAttribute :: "string \<Rightarrow> string \<Rightarrow> attribute" where
  "relationAttribute kind target =
     (plainAttribute ''relation'')\<lparr>attr_relation := kind, attr_target := Some target\<rparr>"

definition mockCountry :: attributes where
  "mockCountry =
     [(''name'', (plainAttribute ''string'')\<lparr>attr_required := True\<rparr>),
      (''code'', (plainAttribute ''string'')\<lparr>attr_unique := True\<rparr>)]"

definition mockCompany :: attributes where
  "mockCompany =
     [(''name'', (plainAttribute ''string'')\<lparr>attr_required := True\<rparr>),
      (''country'', relationAttribute ''manyToOne'' ''api::country.country''),
      (''established'', plainAttribute ''integer''),
      (''active'', (plainAttribute ''boolean'')\<lparr>attr_default := VBool True\<rparr>)]"

definition mockTag :: attributes where
  "mockTag = [(''name'', (plainAttribute ''string'')\<lparr>attr_unique := True\<rparr>),
              (''slug'', (plainAttribute ''string'')\<lparr>attr_unique := True\<rparr>)]"

definition multiRelationContentType :: attributes where
  "multiRelationContentType = [(''tags'', relationAttribute ''manyToMany'' ''api::tag.tag'')]"

definition taggedArticle :: attributes where
  "taggedArticle =
     [(''title'', plainAttribute ''string''),
      (''tag'', relationAttribute ''manyToOne'' ''api::tag.tag'')]"

definition mockContentTypes :: "string \<Rightarrow> attributes option" where
  "mockContentTypes uid =
     (if uid = ''api::country.country'' then Some mockCountry
      else if uid = ''api::company.company'' then Some mockCompany
      else if uid = ''api::tag.tag'' then Some mockTag
      else None)"

definition noDates :: "string \<Rightarrow> string option" where
  "noDates s = None"

text \<open>A store that answers a match on \<open>tag1\<close> with entity 1 and on \<open>tag2\<close> with entity 2.\<close>

definition byTag :: "jsval \<Rightarrow> jsobj list" where
  "byTag v = (if v = VStr ''tag1'' then [[(''id'', VNum 1)]]
              else if v = VStr ''tag2'' then [[(''id'', VNum 2)]] else [])"

definition tagStore :: "unit entityService" where
  "tagStore =
     \<lparr>es_findMany = (\<lambda>uid f w. (Returned (case f of Eqi field v \<Rightarrow> byTag v
                                                | Containsi field v \<Rightarrow> byTag v
                                                | _ \<Rightarrow> []), w)),
      es_create = (\<lambda>uid item w. (Returned (), w)),
      es_update = (\<lambda>uid ident item w. (Returned (), w))\<rparr>"

text \<open>A store with an entity of identifier 5 and another entity whose name is \<open>5\<close>.\<close>

definition fiveStore :: "unit entityService" where
  "fiveStore =
     \<lparr>es_findMany = (\<lambda>uid f w.
        (Returned (if f = IdEquals (VStr ''5'') then [[(''id'', VNum 5), (''name'', VStr ''India'')]]
                   else if f = Eqi ''name'' (VStr ''5'') then [[(''id'', VNum 9), (''name'', VStr ''5'')]]
                   else []), w)),
      es_create = (\<lambda>uid item w. (Returned (), w)),
      es_update = (\<lambda>uid ident item w. (Returned (), w))\<rparr>"

text \<open>A store whose lookups throw, and a store whose creations throw.\<close>

definition failingLookupStore :: "unit entityService" where
  "failingLookupStore =
     \<lparr>es_findMany = (\<lambda>uid f w. (Threw ''Database error'', w)),
      es_create = (\<lambda>uid item w. (Returned (), w)),
      es_update = (\<lambda>uid ident item w. (Returned (), w))\<rparr>"

definition failingCreateStore :: "unit entityService" where
  "failingCreateStore =
     \<lparr>es_findMany = (\<lambda>uid f w. (Returned [], w)),
      es_create = (\<lambda>uid item w. (Threw ''Database error'', w)),
      es_update = (\<lambda>uid ident item w. (Returned (), w))\<rparr>"

definition noMedia :: "jsobj \<Rightarrow> unit list \<Rightarrow> string \<Rightarrow> jsobj" where
  "noMedia item mappings matchField = item"

definition defaultOptions :: "unit importOptions" where
  "defaultOptions =
     \<lparr>opt_upsert = False, opt_batchSize = 100, opt_upsertField = ''id'',
      opt_mediaFieldMappings = []\<rparr>"

section \<open>Objects\<close>

lemma obj_get_obj_set: "obj_get (obj_set ob k v) k' = (if k' = k then Some v else obj_get ob k')"
  by (induction ob) auto

lemma obj_get_obj_delete: "obj_get (obj_delete ob k) k' = (if k' = k then None else obj_get ob k')"
  by (induction ob) auto

section \<open>Repeatable nested records\<close>

lemma js_split_nonempty: "js_split sep s \<noteq> []"
  by (induction s) (auto split: list.splits)

lemma segments_length: "0 < length (segments v)"
  by (simp add: segments_def js_split_nonempty)

lemma maxRows_foldl:
  "foldl (\<lambda>m (fieldKey, values). max m (length values)) n (parsedFields capture)
   = max n (longestSplit capture)"
  by (induction capture arbitrary: n)
     (auto simp: parsedFields_def longestSplit_def segments_def max.assoc)

lemma maxRows_longest:
  "capture \<noteq> [] \<Longrightarrow> maxRows (parsedFields capture) = longestSplit capture"
proof -
  assume ne: "capture \<noteq> []"
  then obtain k v rest where c: "capture = (k, v) # rest" by (cases capture) auto
  have "1 \<le> longestSplit capture"
    using segments_length [of v] by (simp add: c longestSplit_def le_max_iff_disj Suc_le_eq)
  then show ?thesis by (simp add: maxRows_def maxRows_foldl)
qed

lemma componentRow_entryAt_i: "componentRow (parsedFields capture) i = entryAt capture i"
  by (induction capture) (auto simp: parsedFields_def entryAt_def segments_def Let_def)

lemma componentRow_entryAt: "componentRow (parsedFields capture) = entryAt capture"
  by (rule ext) (rule componentRow_entryAt_i)

text \<open>
  Claim C5, as the code has it. For a repeatable nested-record attribute,
  \<open>parseComponentRows\<close> comma-splits every captured subfield value and trims each segment
  of surrounding white space, produces one candidate entry per index below the longest
  split length, gives entry \<open>i\<close> the trimmed \<open>i\<close>-th segment of each subfield unless that
  subfield's split is shorter or the trimmed segment is empty, and drops the entries with
  no subfield. The capture \<open>{street: "A,B", city: "X"}\<close> gives exactly the two entries
  \<open>{street: "A", city: "X"}\<close> and \<open>{street: "B"}\<close>.
\<close>

theorem parseComponentRows_entries:
  "parseComponentRows capture = repeatableEntries capture"
proof (cases "capture = []")
  case True
  then show ?thesis by (simp add: parseComponentRows_def repeatableEntries_def longestSplit_def)
next
  case False
  then show ?thesis
    by (simp add: parseComponentRows_def repeatableEntries_def maxRows_longest componentRow_entryAt)
qed

theorem parseComponentRows_entries_witness:
  "parseComponentRows [(''street'', ''A,B''), (''city'', ''X'')]
     = [[(''street'', ''A''), (''city'', ''X'')], [(''street'', ''B'')]]
   \<and> repeatableEntries [(''street'', ''A,B''), (''city'', ''X'')]
     = [[(''street'', ''A''), (''city'', ''X'')], [(''street'', ''B'')]]"
proof -
  have e: "parseComponentRows [(''street'', ''A,B''), (''city'', ''X'')]
     = [[(''street'', ''A''), (''city'', ''X'')], [(''street'', ''B'')]]"
    by code_simp
  show ?thesis
    using parseComponentRows_entries [of "[(''street'', ''A,B''), (''city'', ''X'')]"] e by simp
qed

text \<open>
  Segments are trimmed: the second comma-segment of \<open>A, B\<close> is \<open>" B"\<close> and the entry
  holds \<open>"B"\<close>; the second comma-segment of \<open>"A, "\<close> is a blank, not the empty string,
  and gives no entry.
\<close>

theorem parseComponentRows_trim_counterexample:
  "js_split CHR '','' ''A, B'' = [''A'', '' B'']
   \<and> parseComponentRows [(''street'', ''A, B'')] = [[(''street'', ''A'')], [(''street'', ''B'')]]
   \<and> js_split CHR '','' ''A, '' = [''A'', '' '']
   \<and> parseComponentRows [(''street'', ''A, '')] = [[(''street'', ''A'')]]"
  by code_simp

section \<open>Values of a nested record\<close>

lemma coerceCell_boolean:
  "attr_type a = ''boolean'' \<Longrightarrow>
   coerceCell toISO index f a v (validatedRow, rowErrors) =
     (if js_toLowerCase v \<in> set [''true'', ''false'', ''1'', ''0'', ''yes'', ''no'']
      then (obj_set validatedRow f (VBool (js_toLowerCase v \<in> set [''true'', ''1'', ''yes''])), rowErrors)
      else (validatedRow, rowErrors @ [rowLabel index f @ '' must be true/false, 1/0, or yes/no'']))"
  by (simp add: coerceCell_def Let_def)

text \<open>
  Claim C6, as the code has it. A boolean subfield of a nested record is converted by
  \<open>convertComponentFieldValue\<close> to \<open>true\<close> for the tokens \<open>true\<close>, \<open>1\<close>, \<open>yes\<close> (in any
  case) and to \<open>false\<close> for every other non-empty token: the conversion always gives a
  value and never an error. It agrees with the top-level coercion on the six tokens
  \<open>true/false/1/0/yes/no\<close>; on any other token the top-level coercion reports the row error
  and stores nothing, while the nested conversion gives \<open>false\<close>.
\<close>

theorem convertComponentFieldValue_boolean:
  assumes "attr_type a = ''boolean''" and "v \<noteq> []"
  shows "convertComponentFieldValue toISO v a = VBool (js_toLowerCase v \<in> set [''true'', ''1'', ''yes''])
         \<and> (if js_toLowerCase v \<in> set [''true'', ''false'', ''1'', ''0'', ''yes'', ''no'']
            then coerceCell toISO index f a v (validatedRow, rowErrors)
                   = (obj_set validatedRow f (convertComponentFieldValue toISO v a), rowErrors)
            else coerceCell toISO index f a v (validatedRow, rowErrors)
                   = (validatedRow, rowErrors @ [rowLabel index f @ '' must be true/false, 1/0, or yes/no''])
                 \<and> convertComponentFieldValue toISO v a = VBool False)"
proof -
  have c: "convertComponentFieldValue toISO v a = VBool (js_toLowerCase v \<in> set [''true'', ''1'', ''yes''])"
    using assms by (simp add: convertComponentFieldValue_def)
  show ?thesis
    unfolding c coerceCell_boolean [OF assms(1)] by auto
qed

theorem convertComponentFieldValue_boolean_witness:
  "convertComponentFieldValue noDates ''YES'' (plainAttribute ''boolean'') = VBool True
   \<and> coerceCell noDates 0 ''active'' (plainAttribute ''boolean'') ''YES'' ([], [])
       = ([(''active'', VBool True)], [])"
proof -
  have a: "attr_type (plainAttribute ''boolean'') = ''boolean''" by (simp add: plainAttribute_def)
  have b: "''YES'' \<noteq> []" by simp
  have l: "js_toLowerCase ''YES'' = ''yes''" by code_simp
  from convertComponentFieldValue_boolean [OF a b, of noDates 0 "''active''" "[]" "[]"]
  show ?thesis by (simp add: l)
qed

text \<open>
  The token \<open>maybe\<close> in a boolean subfield is not an error: the nested value is \<open>false\<close>,
  where the top-level coercion of the same cell reports an error.
\<close>

theorem component_boolean_counterexample:
  "convertComponentFieldValue noDates ''maybe'' (plainAttribute ''boolean'') = VBool False
   \<and> processComponentData tagStore mockContentTypes noDates [(''active'', ''maybe'')]
        [(''active'', plainAttribute ''boolean'')] ()
       = (Some [(''active'', VBool False)], ())
   \<and> snd (coerceCell noDates 0 ''active'' (plainAttribute ''boolean'') ''maybe'' ([], [])) \<noteq> []"
  by code_simp

section \<open>Validation of a file\<close>

lemma validateRows_length: "length (validateRows toISO attributes hm data) = length data"
  by (simp add: validateRows_def)

text \<open>
  Claim C1, as the code has it. When some required attribute lacking a default is the
  target of no header, \<open>validateCsvData\<close> reports the joint missing-required-fields error
  first in the returned errors, and goes on: every row is still validated and lands in
  \<open>validData\<close> or in \<open>invalidRows\<close>, whose lengths add up to the number of rows.
\<close>

theorem validateCsvData_missing_required:
  assumes "data = firstRow # rest"
      and "missingRequired (parseHeaderMapping (map fst firstRow) attributes) attributes \<noteq> []"
  shows "hd (val_errors (validateCsvData toISO contentTypes data attributes))
           = ''Missing required fields: ''
               @ js_join '', '' (missingRequired (parseHeaderMapping (map fst firstRow) attributes) attributes)
         \<and> val_validData (validateCsvData toISO contentTypes data attributes)
           = map row_data (filter (\<lambda>r. row_errors r = [])
               (validateRows toISO attributes (parseHeaderMapping (map fst firstRow) attributes) data))
         \<and> val_invalidRows (validateCsvData toISO contentTypes data attributes)
           = Some (filter (\<lambda>r. row_errors r \<noteq> [])
               (validateRows toISO attributes (parseHeaderMapping (map fst firstRow) attributes) data))
         \<and> length (val_validData (validateCsvData toISO contentTypes data attributes))
             + length (the (val_invalidRows (validateCsvData toISO contentTypes data attributes)))
           = length data"
proof -
  have "length (filter (\<lambda>r. row_errors r = []) xs) + length (filter (\<lambda>r. row_errors r \<noteq> []) xs)
          = length xs" for xs :: "rowResult list"
    using sum_length_filter_compl [of "\<lambda>r. row_errors r = []" xs] by simp
  then show ?thesis
    using assms by (simp add: validateCsvData_def Let_def validateRows_length)
qed

theorem validateCsvData_missing_required_witness:
  "hd (val_errors (validateCsvData noDates mockContentTypes [[(''code'', ''IN'')]] mockCountry))
     = ''Missing required fields: name''
   \<and> length (val_validData (validateCsvData noDates mockContentTypes [[(''code'', ''IN'')]] mockCountry)) = 1"
proof -
  have a: "[[(''code'', ''IN'')]] = [(''code'', ''IN'')] # []" by simp
  have m: "missingRequired (parseHeaderMapping [''code''] mockCountry) mockCountry = [''name'']"
    by code_simp
  have b: "missingRequired (parseHeaderMapping (map fst [(''code'', ''IN'')]) mockCountry) mockCountry \<noteq> []"
    by (simp add: m)
  have v: "validateRows noDates mockCountry (parseHeaderMapping [''code''] mockCountry) [[(''code'', ''IN'')]]
      = [\<lparr>row_data = [(''code'', VStr ''IN'')], row_errors = [], row_originalRow = [(''code'', ''IN'')]\<rparr>]"
    by code_simp
  from validateCsvData_missing_required [OF a b, of noDates mockContentTypes]
  show ?thesis by (simp add: m v)
qed

text \<open>
  The file \<open>[{code: "IN"}]\<close> against a schema that requires \<open>name\<close>: the error is reported
  and the row is processed all the same, \<open>validData\<close> holds it.
\<close>

theorem validateCsvData_missing_required_counterexample:
  "validateCsvData noDates mockContentTypes [[(''code'', ''IN'')]] mockCountry
     = \<lparr>val_errors = [''Missing required fields: name''], val_warnings = [],
        val_validData = [[(''code'', VStr ''IN'')]], val_invalidRows = Some []\<rparr>"
  by code_simp

section \<open>Header mapping and row validation\<close>

lemma obj_get_filter_keys:
  "obj_get (filter (\<lambda>(key, v). P key) ob) k = (if P k then obj_get ob k else None)"
  by (induction ob) auto

lemma obj_get_foldl_set:
  "obj_get (foldl (\<lambda>hm h. obj_set hm h (F h)) acc hs) k
     = (if k \<in> set hs then Some (F k) else obj_get acc k)"
  by (induction hs arbitrary: acc) (auto simp: obj_get_obj_set)

lemma obj_get_parseHeaderMapping:
  "obj_get (parseHeaderMapping hs attributes) h
     = (if h \<in> set hs then Some (headerEntry attributes h) else None)"
  by (simp add: parseHeaderMapping_def obj_get_foldl_set)

lemma mapped_header:
  assumes "obj_get (parseHeaderMapping hs attributes) h = Some m"
  shows "m = headerEntry attributes h"
  using assms by (simp add: obj_get_parseHeaderMapping split: if_splits)

lemma headerEntry_cases:
  assumes "map_isValid (headerEntry attributes h)"
      and "obj_get attributes (map_field (headerEntry attributes h)) = Some a"
  shows "(\<not> map_isDotNotation (headerEntry attributes h) \<and> map_field (headerEntry attributes h) = h)
         \<or> (map_isDotNotation (headerEntry attributes h) \<and> \<not> map_isComponent (headerEntry attributes h)
             \<and> attr_type a = ''relation'' \<and> map_relationField (headerEntry attributes h) \<noteq> None)
         \<or> (map_isDotNotation (headerEntry attributes h) \<and> map_isComponent (headerEntry attributes h)
             \<and> attr_type a = ''component'')"
  using assms
  by (auto simp: headerEntry_def invalidMapping_def split: if_splits list.splits option.splits)

lemma headerEntry_valid_attr:
  "map_isValid (headerEntry attributes h) \<Longrightarrow>
   \<exists>a. obj_get attributes (map_field (headerEntry attributes h)) = Some a"
  by (auto simp: headerEntry_def invalidMapping_def split: if_splits list.splits option.splits)

lemma plainNames_get:
  "plainNames attributes \<Longrightarrow> obj_get attributes f = Some a \<Longrightarrow> \<not> js_startsWith f ''__''"
  by (induction attributes) (auto simp: plainNames_def split: if_splits)

lemma dotNotationKey_starts: "js_startsWith (dotNotationKey f) ''__''"
  by (simp add: dotNotationKey_def js_startsWith_def)

lemma componentDataKey_starts: "js_startsWith (componentDataKey f) ''__''"
  by (simp add: componentDataKey_def js_startsWith_def)

lemma dotNotationKey_inj: "dotNotationKey f = dotNotationKey g \<Longrightarrow> f = g"
  by (simp add: dotNotationKey_def)

lemma componentDataKey_not_dotNotationKey: "componentDataKey f \<noteq> dotNotationKey g"
proof
  assume "componentDataKey f = dotNotationKey g"
  then have "last (componentDataKey f) = last (dotNotationKey g)" by simp
  then show False by (simp add: componentDataKey_def dotNotationKey_def)
qed

lemma dotNotationKey_not_plain:
  "\<not> js_startsWith f ''__'' \<Longrightarrow> dotNotationKey g \<noteq> f"
  using dotNotationKey_starts by metis

lemma componentDataKey_not_plain:
  "\<not> js_startsWith f ''__'' \<Longrightarrow> componentDataKey g \<noteq> f"
  using componentDataKey_starts by metis

lemma storeDotNotation_other:
  "dotNotationKey (map_field m) \<noteq> k \<Longrightarrow> componentDataKey (map_field m) \<noteq> k \<Longrightarrow>
   obj_get (storeDotNotation m v vr) k = obj_get vr k"
  by (simp add: storeDotNotation_def Let_def obj_get_obj_set)

lemma coerceCell_other:
  "f \<noteq> k \<Longrightarrow> obj_get (fst (coerceCell toISO index f a v st)) k = obj_get (fst st) k"
  by (cases st) (simp add: coerceCell_def Let_def obj_get_obj_set split: option.splits)

lemma coerceCell_errors_mono:
  "x \<in> set errs \<Longrightarrow> x \<in> set (snd (coerceCell toISO index f a v (vr, errs)))"
  by (auto simp: coerceCell_def Let_def split: option.splits)

lemma validateHeader_errors_mono:
  "x \<in> set (snd st) \<Longrightarrow> x \<in> set (snd (validateHeader toISO attributes hm index st cell))"
  by (cases cell) (auto simp: validateHeader_def Let_def coerceCell_errors_mono split: option.splits)

lemma foldl_validateHeader_errors_mono:
  "x \<in> set (snd st) \<Longrightarrow> x \<in> set (snd (foldl (validateHeader toISO attributes hm index) st cells))"
proof (induction cells arbitrary: st)
  case Nil
  then show ?case by simp
next
  case (Cons c cells)
  have "x \<in> set (snd (validateHeader toISO attributes hm index st c))"
    using Cons.prems by (rule validateHeader_errors_mono)
  then show ?case using Cons.IH by simp
qed

lemma validateHeader_other:
  assumes "\<And>m. obj_get hm h = Some m \<Longrightarrow> map_isValid m \<Longrightarrow>
             map_field m \<noteq> k \<and> dotNotationKey (map_field m) \<noteq> k \<and> componentDataKey (map_field m) \<noteq> k"
  shows "obj_get (fst (validateHeader toISO attributes hm index st (h, v))) k = obj_get (fst st) k"
proof (cases "obj_get hm h")
  case None
  then show ?thesis by (simp add: validateHeader_def)
next
  case (Some m)
  show ?thesis
  proof (cases "map_isValid m")
    case False
    then show ?thesis using Some by (simp add: validateHeader_def)
  next
    case True
    from assms [OF Some True]
    have k: "map_field m \<noteq> k" "dotNotationKey (map_field m) \<noteq> k" "componentDataKey (map_field m) \<noteq> k"
      by auto
    show ?thesis
      using Some True k
      by (auto simp: validateHeader_def Let_def coerceCell_other storeDotNotation_other
               split: option.splits)
  qed
qed

lemma foldl_validateHeader_other:
  assumes "\<And>h v m. (h, v) \<in> set cells \<Longrightarrow> obj_get hm h = Some m \<Longrightarrow> map_isValid m \<Longrightarrow>
             map_field m \<noteq> k \<and> dotNotationKey (map_field m) \<noteq> k \<and> componentDataKey (map_field m) \<noteq> k"
  shows "obj_get (fst (foldl (validateHeader toISO attributes hm index) st cells)) k = obj_get (fst st) k"
  using assms
proof (induction cells arbitrary: st)
  case Nil
  then show ?case by simp
next
  case (Cons c cells)
  obtain h v where c: "c = (h, v)" by (cases c) auto
  have 1: "obj_get (fst (validateHeader toISO attributes hm index st (h, v))) k = obj_get (fst st) k"
    by (rule validateHeader_other) (use Cons.prems c in auto)
  have 2: "obj_get (fst (foldl (validateHeader toISO attributes hm index)
                 (validateHeader toISO attributes hm index st (h, v)) cells)) k
           = obj_get (fst (validateHeader toISO attributes hm index st (h, v))) k"
    by (rule Cons.IH) (use Cons.prems in auto)
  show ?case using 1 2 by (simp add: c)
qed

lemma validateRows_nth:
  "i < length data \<Longrightarrow>
   validateRows toISO attributes hm data ! i = validateRow toISO attributes hm i (data ! i)"
  by (simp add: validateRows_def)

lemma validateRow_in_validateRows:
  "i < length data \<Longrightarrow>
   validateRow toISO attributes hm i (data ! i) \<in> set (validateRows toISO attributes hm data)"
  by (metis validateRows_nth nth_mem length_map length_zip min.idem length_upt diff_zero validateRows_def)

lemma validateCsvData_nonempty:
  assumes "i < length data"
  shows "validateCsvData toISO contentTypes data attributes =
     (let csvHeaders = map fst (hd data);
          headerMapping = parseHeaderMapping csvHeaders attributes;
          missing = missingRequired headerMapping attributes;
          errors1 = (if missing \<noteq> []
                     then [''Missing required fields: '' @ js_join '', '' missing] else []);
          unknown = unknownFields csvHeaders headerMapping;
          warnings1 = (if unknown \<noteq> []
                       then [''Unknown fields (will be ignored): '' @ js_join '', '' unknown]
                       else []);
          relationUnique = validateRelationFieldUniqueness contentTypes headerMapping attributes;
          validData = validateRows toISO attributes headerMapping data
      in \<lparr>val_errors = (errors1 @ fst relationUnique) @ concat (map row_errors validData),
          val_warnings = warnings1 @ snd relationUnique,
          val_validData = map row_data (filter (\<lambda>r. row_errors r = []) validData),
          val_invalidRows = Some (filter (\<lambda>r. row_errors r \<noteq> []) validData)\<rparr>)"
  using assms by (cases data) (simp_all add: validateCsvData_def Let_def)

lemma row_error_in_file_errors:
  assumes "i < length data"
      and "x \<in> set (row_errors (validateRow toISO attributes
                 (parseHeaderMapping (map fst (hd data)) attributes) i (data ! i)))"
  shows "x \<in> set (val_errors (validateCsvData toISO contentTypes data attributes))"
    and "val_invalidRows (validateCsvData toISO contentTypes data attributes)
           = Some (filter (\<lambda>r. row_errors r \<noteq> [])
               (validateRows toISO attributes (parseHeaderMapping (map fst (hd data)) attributes) data))"
    and "validateRow toISO attributes (parseHeaderMapping (map fst (hd data)) attributes) i (data ! i)
           \<in> set (filter (\<lambda>r. row_errors r \<noteq> [])
               (validateRows toISO attributes (parseHeaderMapping (map fst (hd data)) attributes) data))"
proof -
  let ?hm = "parseHeaderMapping (map fst (hd data)) attributes"
  let ?res = "validateRow toISO attributes ?hm i (data ! i)"
  have mem: "?res \<in> set (validateRows toISO attributes ?hm data)"
    using assms(1) by (rule validateRow_in_validateRows)
  then show "x \<in> set (val_errors (validateCsvData toISO contentTypes data attributes))"
    using assms(2) by (auto simp: validateCsvData_nonempty [OF assms(1)] Let_def)
  show "val_invalidRows (validateCsvData toISO contentTypes data attributes)
           = Some (filter (\<lambda>r. row_errors r \<noteq> []) (validateRows toISO attributes ?hm data))"
    by (simp add: validateCsvData_nonempty [OF assms(1)] Let_def)
  show "?res \<in> set (filter (\<lambda>r. row_errors r \<noteq> []) (validateRows toISO attributes ?hm data))"
    using mem assms(2) by auto
qed

lemma valid_row_in_validData:
  assumes "i < length data"
      and "row_errors (validateRow toISO attributes
                 (parseHeaderMapping (map fst (hd data)) attributes) i (data ! i)) = []"
  shows "row_data (validateRow toISO attributes
                 (parseHeaderMapping (map fst (hd data)) attributes) i (data ! i))
           \<in> set (val_validData (validateCsvData toISO contentTypes data attributes))"
  using validateRow_in_validateRows [OF assms(1), of toISO attributes "parseHeaderMapping (map fst (hd data)) attributes"] assms(2)
  by (auto simp: validateCsvData_nonempty [OF assms(1)] Let_def)

lemma scalar_field_untouched:
  assumes names: "plainNames attributes"
      and f: "obj_get attributes f = Some a" "attr_type a \<noteq> ''relation''" "attr_type a \<noteq> ''component''"
      and h: "h \<noteq> f"
      and m: "obj_get (parseHeaderMapping hs attributes) h = Some m" "map_isValid m"
  shows "map_field m \<noteq> f \<and> dotNotationKey (map_field m) \<noteq> f \<and> componentDataKey (map_field m) \<noteq> f"
proof -
  have me: "m = headerEntry attributes h" using m(1) by (rule mapped_header)
  have nf: "\<not> js_startsWith f ''__''" using names f(1) by (rule plainNames_get)
  have k1: "dotNotationKey (map_field m) \<noteq> f" using nf dotNotationKey_starts by metis
  have k2: "componentDataKey (map_field m) \<noteq> f" using nf componentDataKey_starts by metis
  have "map_field m \<noteq> f"
  proof
    assume eq: "map_field m = f"
    then have "obj_get attributes (map_field (headerEntry attributes h)) = Some a"
      using f(1) me by simp
    from headerEntry_cases [OF _ this] m(2) me f(2,3) eq h show False by auto
  qed
  then show ?thesis using k1 k2 by simp
qed

lemma validateHeader_plain_present:
  assumes "obj_get hm h = Some m" "map_isValid m" "\<not> map_isDotNotation m"
      and "obj_get attributes (map_field m) = Some a" "v \<noteq> []"
  shows "validateHeader toISO attributes hm index st (h, v)
           = coerceCell toISO index (map_field m) a v (fst st, snd st)"
  using assms by (simp add: validateHeader_def Let_def storeDotNotation_def)

text \<open>
  Claim C7. A present (non-empty) cell whose header maps to a boolean attribute is matched
  case-insensitively: the tokens \<open>true\<close>, \<open>1\<close>, \<open>yes\<close> store \<open>true\<close> in the field, the
  tokens \<open>false\<close>, \<open>0\<close>, \<open>no\<close> store \<open>false\<close>, and any other token stores nothing in the
  field and produces the row error \<open>Row N: "<field>" must be true/false, 1/0, or yes/no\<close>,
  which is among the errors of the file, the row being among the invalid rows. Attribute
  names are identifiers (none starts with \<open>__\<close>), and the keys of a row are distinct.
\<close>

theorem validateCsvData_boolean_cell:
  assumes data: "i < length data"
      and names: "plainNames attributes"
      and hm: "headerMapping = parseHeaderMapping (map fst (hd data)) attributes"
      and target: "obj_get headerMapping h = Some m" "map_isValid m"
                  "obj_get attributes (map_field m) = Some a" "attr_type a = ''boolean''"
      and cell: "(h, v) \<in> set (data ! i)" "distinct (map fst (data ! i))" "v \<noteq> []"
  shows "let res = validateRow toISO attributes headerMapping i (data ! i);
             out = validateCsvData toISO contentTypes data attributes;
             message = rowLabel i (map_field m) @ '' must be true/false, 1/0, or yes/no''
         in if js_toLowerCase v \<in> set [''true'', ''1'', ''yes'']
            then obj_get (row_data res) (map_field m) = Some (VBool True)
            else if js_toLowerCase v \<in> set [''false'', ''0'', ''no'']
            then obj_get (row_data res) (map_field m) = Some (VBool False)
            else obj_get (row_data res) (map_field m) = None
                 \<and> message \<in> set (row_errors res)
                 \<and> message \<in> set (val_errors out)
                 \<and> (case val_invalidRows out of None \<Rightarrow> False | Some rows \<Rightarrow> res \<in> set rows)"
proof -
  let ?f = "map_field m"
  let ?step = "validateHeader toISO attributes headerMapping i"
  let ?msg = "rowLabel i ?f @ '' must be true/false, 1/0, or yes/no''"
  have me: "m = headerEntry attributes h" using target(1) hm mapped_header by simp
  have plain: "\<not> map_isDotNotation m" "?f = h"
    using headerEntry_cases [of attributes h a] target me by auto
  obtain pre post where row: "data ! i = pre @ (h, v) # post"
    using cell(1) by (auto simp: in_set_conv_decomp)
  have hpre: "h \<notin> fst ` set pre" and hpost: "h \<notin> fst ` set post"
    using cell(2) by (auto simp: row)
  have other: "map_field m' \<noteq> ?f \<and> dotNotationKey (map_field m') \<noteq> ?f \<and> componentDataKey (map_field m') \<noteq> ?f"
    if "h' \<noteq> h" "obj_get headerMapping h' = Some m'" "map_isValid m'" for h' m'
    using scalar_field_untouched [OF names target(3) _ _ _ _ that(3), of h' "map fst (hd data)"]
      that target(4) plain hm by simp
  define st1 where "st1 = foldl ?step ([], []) pre"
  define st2 where "st2 = ?step st1 (h, v)"
  have pre_none: "obj_get (fst st1) ?f = None"
  proof -
    have "obj_get (fst (foldl ?step ([], []) pre)) ?f = obj_get (fst (([], [])::jsobj \<times> string list)) ?f"
    proof (rule foldl_validateHeader_other)
      fix h' v' m'
      assume a: "(h', v') \<in> set pre" "obj_get headerMapping h' = Some m'" "map_isValid m'"
      from a(1) hpre have "h' \<noteq> h" by (metis fst_conv image_eqI)
      then show "map_field m' \<noteq> ?f \<and> dotNotationKey (map_field m') \<noteq> ?f
                 \<and> componentDataKey (map_field m') \<noteq> ?f"
        using a(2,3) by (rule other)
    qed
    then show ?thesis by (simp add: st1_def)
  qed
  have post_same: "obj_get (fst (foldl ?step st2 post)) ?f = obj_get (fst st2) ?f"
  proof (rule foldl_validateHeader_other)
    fix h' v' m'
    assume a: "(h', v') \<in> set post" "obj_get headerMapping h' = Some m'" "map_isValid m'"
    from a(1) hpost have "h' \<noteq> h" by (metis fst_conv image_eqI)
    then show "map_field m' \<noteq> ?f \<and> dotNotationKey (map_field m') \<noteq> ?f
               \<and> componentDataKey (map_field m') \<noteq> ?f"
      using a(2,3) by (rule other)
  qed
  have st2: "st2 = (if js_toLowerCase v \<in> set [''true'', ''false'', ''1'', ''0'', ''yes'', ''no'']
      then (obj_set (fst st1) ?f (VBool (js_toLowerCase v \<in> set [''true'', ''1'', ''yes''])), snd st1)
      else (fst st1, snd st1 @ [?msg]))"
  proof -
    have "st2 = coerceCell toISO i ?f a v (fst st1, snd st1)"
      unfolding st2_def
      by (rule validateHeader_plain_present [OF target(1,2) plain(1) target(3) cell(3)])
    then show ?thesis by (simp only: coerceCell_boolean [OF target(4)])
  qed
  have res: "validateRow toISO attributes headerMapping i (data ! i)
               = \<lparr>row_data = fst (foldl ?step st2 post), row_errors = snd (foldl ?step st2 post),
                  row_originalRow = data ! i\<rparr>"
    by (simp add: validateRow_def Let_def row st1_def st2_def)
  show ?thesis
  proof (cases "js_toLowerCase v \<in> set [''true'', ''false'', ''1'', ''0'', ''yes'', ''no'']")
    case True
    then have "obj_get (fst st2) ?f = Some (VBool (js_toLowerCase v \<in> set [''true'', ''1'', ''yes'']))"
      by (simp add: st2 obj_get_obj_set)
    then show ?thesis using True post_same by (auto simp: res Let_def)
  next
    case False
    then have g: "obj_get (fst st2) ?f = None" and e: "?msg \<in> set (snd st2)"
      by (simp_all add: st2 pre_none)
    have e': "?msg \<in> set (snd (foldl ?step st2 post))"
      using e by (rule foldl_validateHeader_errors_mono)
    then have e'': "?msg \<in> set (row_errors (validateRow toISO attributes
                 (parseHeaderMapping (map fst (hd data)) attributes) i (data ! i)))"
      using res hm by simp
    note infile = row_error_in_file_errors [OF data e'']
    have inv: "case val_invalidRows (validateCsvData toISO contentTypes data attributes) of
                 None \<Rightarrow> False
               | Some rows \<Rightarrow> validateRow toISO attributes headerMapping i (data ! i) \<in> set rows"
      using infile(2,3) hm by simp
    have notin: "js_toLowerCase v \<notin> set [''true'', ''1'', ''yes'']"
                "js_toLowerCase v \<notin> set [''false'', ''0'', ''no'']"
      using False by auto
    show ?thesis
      unfolding Let_def using notin g post_same e' infile(1) inv by (simp add: res)
  qed
qed

theorem validateCsvData_boolean_cell_witness:
  "obj_get (row_data (validateRow noDates mockCompany
              (parseHeaderMapping [''name'', ''active''] mockCompany) 0
              [(''name'', ''Test1''), (''active'', ''maybe'')])) ''active'' = None
   \<and> rowLabel 0 ''active'' @ '' must be true/false, 1/0, or yes/no''
       \<in> set (val_errors (validateCsvData noDates mockContentTypes
                  [[(''name'', ''Test1''), (''active'', ''maybe'')]] mockCompany))"
proof -
  let ?m = "\<lparr>map_field = ''active'', map_relationField = None, map_componentField = None,
             map_isDotNotation = False, map_isComponent = False, map_isValid = True,
             map_componentName = None\<rparr>"
  let ?a = "(plainAttribute ''boolean'')\<lparr>attr_default := VBool True\<rparr>"
  let ?data = "[[(''name'', ''Test1''), (''active'', ''maybe'')]]"
  have d: "(0::nat) < length ?data" by simp
  have n: "plainNames mockCompany" by code_simp
  have hm: "parseHeaderMapping [''name'', ''active''] mockCompany
              = parseHeaderMapping (map fst (hd ?data)) mockCompany"
    by simp
  have t1: "obj_get (parseHeaderMapping [''name'', ''active''] mockCompany) ''active'' = Some ?m"
    by code_simp
  have t2: "map_isValid ?m" by simp
  have t3: "obj_get mockCompany (map_field ?m) = Some ?a" by code_simp
  have t4: "attr_type ?a = ''boolean''" by (simp add: plainAttribute_def)
  have c1: "(''active'', ''maybe'') \<in> set (?data ! 0)" by simp
  have c2: "distinct (map fst (?data ! 0))" by simp
  have c3: "''maybe'' \<noteq> []" by simp
  have low: "js_toLowerCase ''maybe'' = ''maybe''" by code_simp
  from validateCsvData_boolean_cell [OF d n hm t1 t2 t3 t4 c1 c2 c3, of noDates mockContentTypes]
  show ?thesis by (simp add: Let_def low)
qed

lemma validateHeader_relation_present:
  assumes "obj_get hm h = Some m" "map_isValid m" "map_isDotNotation m" "\<not> map_isComponent m"
      and "obj_get attributes (map_field m) = Some a" "attr_type a = ''relation''" "v \<noteq> []"
  shows "validateHeader toISO attributes hm index st (h, v)
           = (obj_set (obj_set (fst st) (dotNotationKey (map_field m))
                         (VObj [(''relationField'', relationFieldValue (map_relationField m)),
                                (''value'', VStr v)]))
                (map_field m) (VStr v), snd st)"
  using assms by (simp add: validateHeader_def Let_def storeDotNotation_def coerceCell_def)

lemma validateHeader_empty_cell:
  assumes "obj_get hm h = Some m" "map_isValid m" "obj_get attributes (map_field m) = Some a"
  shows "fst (validateHeader toISO attributes hm index st (h, [])) = storeDotNotation m [] (fst st)"
  using assms by (simp add: validateHeader_def Let_def)

lemma validateHeader_keeps_relation:
  assumes names: "plainNames attributes"
      and f: "obj_get attributes f = Some a" "attr_type a = ''relation''"
      and later: "v' = [] \<or> (\<forall>m'. obj_get (parseHeaderMapping hs attributes) h' = Some m'
                               \<longrightarrow> map_isValid m' \<longrightarrow> map_field m' \<noteq> f)"
      and inv: "carriesRelation f v (fst st)"
  shows "carriesRelation f v (fst (validateHeader toISO attributes (parseHeaderMapping hs attributes) index st (h', v')))"
proof -
  let ?hm = "parseHeaderMapping hs attributes"
  have nf: "\<not> js_startsWith f ''__''" using names f(1) by (rule plainNames_get)
  show ?thesis
  proof (cases "\<exists>m'. obj_get ?hm h' = Some m' \<and> map_isValid m' \<and> map_field m' = f")
    case False
    have other: "map_field m \<noteq> k \<and> dotNotationKey (map_field m) \<noteq> k \<and> componentDataKey (map_field m) \<noteq> k"
      if k: "k = f \<or> k = dotNotationKey f" and m: "obj_get ?hm h' = Some m" "map_isValid m" for k m
    proof -
      have mf: "map_field m \<noteq> f" using False m by auto
      have me: "m = headerEntry attributes h'" using m(1) by (rule mapped_header)
      obtain a' where "obj_get attributes (map_field m) = Some a'"
        using headerEntry_valid_attr [of attributes h'] m(2) me by auto
      then have np: "\<not> js_startsWith (map_field m) ''__''" using names plainNames_get by blast
      have 1: "map_field m \<noteq> dotNotationKey f" using np dotNotationKey_not_plain by metis
      have 2: "dotNotationKey (map_field m) \<noteq> dotNotationKey f" using mf dotNotationKey_inj by blast
      have 3: "componentDataKey (map_field m) \<noteq> dotNotationKey f" by (rule componentDataKey_not_dotNotationKey)
      have 4: "dotNotationKey (map_field m) \<noteq> f" using nf by (rule dotNotationKey_not_plain)
      have 5: "componentDataKey (map_field m) \<noteq> f" using nf by (rule componentDataKey_not_plain)
      from k mf 1 2 3 4 5 show ?thesis by auto
    qed
    have a: "obj_get (fst (validateHeader toISO attributes ?hm index st (h', v'))) f = obj_get (fst st) f"
      by (rule validateHeader_other) (rule other, simp)
    have b: "obj_get (fst (validateHeader toISO attributes ?hm index st (h', v'))) (dotNotationKey f)
               = obj_get (fst st) (dotNotationKey f)"
      by (rule validateHeader_other) (rule other, simp)
    show ?thesis using inv by (simp add: carriesRelation_def a b)
  next
    case True
    then obtain m' where m': "obj_get ?hm h' = Some m'" "map_isValid m'" "map_field m' = f" by auto
    then have v': "v' = []" using later by auto
    have me: "m' = headerEntry attributes h'" using m'(1) by (rule mapped_header)
    have cases: "\<not> map_isDotNotation m' \<or> (map_isDotNotation m' \<and> \<not> map_isComponent m')"
      using headerEntry_cases [of attributes h' a] m' me f by auto
    have fst: "fst (validateHeader toISO attributes ?hm index st (h', v')) = storeDotNotation m' [] (fst st)"
      unfolding v' by (rule validateHeader_empty_cell [OF m'(1,2)]) (simp add: m'(3) f(1))
    have ne: "dotNotationKey f \<noteq> f" using nf by (rule dotNotationKey_not_plain)
    show ?thesis
      using cases inv ne
      by (auto simp: fst carriesRelation_def storeDotNotation_def m'(3) obj_get_obj_set)
  qed
qed

lemma foldl_validateHeader_keeps_relation:
  assumes names: "plainNames attributes"
      and f: "obj_get attributes f = Some a" "attr_type a = ''relation''"
      and later: "\<forall>(h', v') \<in> set cells. v' = [] \<or> (\<forall>m'. obj_get (parseHeaderMapping hs attributes) h' = Some m'
                               \<longrightarrow> map_isValid m' \<longrightarrow> map_field m' \<noteq> f)"
      and inv: "carriesRelation f v (fst st)"
  shows "carriesRelation f v (fst (foldl (validateHeader toISO attributes (parseHeaderMapping hs attributes) index) st cells))"
  using later inv
proof (induction cells arbitrary: st)
  case Nil
  then show ?case by simp
next
  case (Cons c cells)
  obtain h' v' where c: "c = (h', v')" by (cases c) auto
  have "carriesRelation f v (fst (validateHeader toISO attributes (parseHeaderMapping hs attributes) index st (h', v')))"
    by (rule validateHeader_keeps_relation [OF names f _ Cons.prems(2)]) (use Cons.prems(1) c in auto)
  then show ?case using Cons.IH Cons.prems(1) by (simp add: c)
qed

text \<open>
  Claim C10, as the code has it. For a row with no error that contains a valid dotted
  relation header \<open>f.s\<close> with a non-empty cell \<open>v\<close>, and no later column of the row that
  targets \<open>f\<close> with a non-empty cell, the row returned in \<open>validData\<close> carries a relation
  capture under the side-channel key of \<open>f\<close> and the plain field \<open>f\<close> set to the raw string
  \<open>v\<close>. (The last column that targets \<open>f\<close> with a non-empty cell is the one that sets the
  plain field.)
\<close>

theorem validateCsvData_dotted_relation:
  assumes data: "i < length data"
      and names: "plainNames attributes"
      and hm: "headerMapping = parseHeaderMapping (map fst (hd data)) attributes"
      and target: "obj_get headerMapping h = Some m" "map_isValid m" "map_isDotNotation m"
                  "obj_get attributes (map_field m) = Some a" "attr_type a = ''relation''"
      and row: "data ! i = pre @ (h, v) # post" "v \<noteq> []"
      and last: "\<forall>(h', v') \<in> set post.
                   v' = [] \<or> (\<forall>m'. obj_get headerMapping h' = Some m' \<longrightarrow> map_isValid m'
                                 \<longrightarrow> map_field m' \<noteq> map_field m)"
      and valid: "row_errors (validateRow toISO attributes headerMapping i (data ! i)) = []"
  shows "row_data (validateRow toISO attributes headerMapping i (data ! i))
           \<in> set (val_validData (validateCsvData toISO contentTypes data attributes))
         \<and> obj_get (row_data (validateRow toISO attributes headerMapping i (data ! i))) (map_field m)
             = Some (VStr v)
         \<and> (case obj_get (row_data (validateRow toISO attributes headerMapping i (data ! i)))
                    (dotNotationKey (map_field m)) of
              None \<Rightarrow> False
            | Some capture \<Rightarrow> isCapture capture)"
proof -
  let ?f = "map_field m"
  let ?step = "validateHeader toISO attributes headerMapping i"
  have me: "m = headerEntry attributes h" using target(1) hm mapped_header by simp
  have nc: "\<not> map_isComponent m"
    using headerEntry_cases [of attributes h a] target me by auto
  have nf: "\<not> js_startsWith ?f ''__''" using names target(4) by (rule plainNames_get)
  define st1 where "st1 = foldl ?step ([], []) pre"
  define st2 where "st2 = ?step st1 (h, v)"
  have "st2 = (obj_set (obj_set (fst st1) (dotNotationKey ?f)
                         (VObj [(''relationField'', relationFieldValue (map_relationField m)),
                                (''value'', VStr v)])) ?f (VStr v), snd st1)"
    unfolding st2_def
    by (rule validateHeader_relation_present [OF target(1,2,3) nc target(4,5) row(2)])
  then have inv2: "carriesRelation ?f v (fst st2)"
    using dotNotationKey_not_plain [OF nf, of ?f]
    by (auto simp: carriesRelation_def obj_get_obj_set)
  have inv3: "carriesRelation ?f v (fst (foldl ?step st2 post))"
    unfolding hm
    by (rule foldl_validateHeader_keeps_relation [OF names target(4,5)])
       (use last inv2 hm in auto)
  have res: "row_data (validateRow toISO attributes headerMapping i (data ! i)) = fst (foldl ?step st2 post)"
    by (simp add: validateRow_def Let_def row(1) st1_def st2_def)
  have mem: "row_data (validateRow toISO attributes headerMapping i (data ! i))
           \<in> set (val_validData (validateCsvData toISO contentTypes data attributes))"
    using valid_row_in_validData [OF data, of toISO attributes contentTypes] valid hm by simp
  show ?thesis using inv3 mem by (simp add: res carriesRelation_def)
qed

theorem validateCsvData_dotted_relation_witness:
  "row_data (validateRow noDates taggedArticle
       (parseHeaderMapping [''title'', ''tag.name''] taggedArticle) 0
       [(''title'', ''Hello''), (''tag.name'', ''news'')])
     \<in> set (val_validData (validateCsvData noDates mockContentTypes
               [[(''title'', ''Hello''), (''tag.name'', ''news'')]] taggedArticle))
   \<and> obj_get (row_data (validateRow noDates taggedArticle
       (parseHeaderMapping [''title'', ''tag.name''] taggedArticle) 0
       [(''title'', ''Hello''), (''tag.name'', ''news'')])) ''tag'' = Some (VStr ''news'')"
proof -
  let ?m = "\<lparr>map_field = ''tag'', map_relationField = Some ''name'', map_componentField = None,
             map_isDotNotation = True, map_isComponent = False, map_isValid = True,
             map_componentName = None\<rparr>"
  let ?a = "relationAttribute ''manyToOne'' ''api::tag.tag''"
  let ?data = "[[(''title'', ''Hello''), (''tag.name'', ''news'')]]"
  have d: "(0::nat) < length ?data" by simp
  have n: "plainNames taggedArticle" by code_simp
  have hm: "parseHeaderMapping [''title'', ''tag.name''] taggedArticle
              = parseHeaderMapping (map fst (hd ?data)) taggedArticle"
    by simp
  have t1: "obj_get (parseHeaderMapping [''title'', ''tag.name''] taggedArticle) ''tag.name'' = Some ?m"
    by code_simp
  have t2: "map_isValid ?m" and t3: "map_isDotNotation ?m" by simp_all
  have t4: "obj_get taggedArticle (map_field ?m) = Some ?a" by code_simp
  have t5: "attr_type ?a = ''relation''" by (simp add: relationAttribute_def plainAttribute_def)
  have r1: "?data ! 0 = [(''title'', ''Hello'')] @ (''tag.name'', ''news'') # []" by simp
  have r2: "''news'' \<noteq> []" by simp
  have l: "\<forall>(h', v') \<in> set [].
             v' = [] \<or> (\<forall>m'. obj_get (parseHeaderMapping [''title'', ''tag.name''] taggedArticle) h' = Some m'
                           \<longrightarrow> map_isValid m' \<longrightarrow> map_field m' \<noteq> map_field ?m)"
    by simp
  have v: "row_errors (validateRow noDates taggedArticle
             (parseHeaderMapping [''title'', ''tag.name''] taggedArticle) 0 (?data ! 0)) = []"
    by code_simp
  from validateCsvData_dotted_relation [OF d n hm t1 t2 t3 t4 t5 r1 r2 l v, of mockContentTypes]
  show ?thesis by simp
qed

text \<open>
  Two dotted headers of the same relation in one row: the row is valid, and the plain field
  holds the cell of the last one, not of \<open>tag.name\<close>.
\<close>

theorem validateCsvData_dotted_relation_counterexample:
  "validateCsvData noDates mockContentTypes
     [[(''title'', ''Hello''), (''tag.name'', ''news''), (''tag.slug'', ''sports'')]] taggedArticle
   = \<lparr>val_errors = [], val_warnings = [],
      val_validData = [[(''title'', VStr ''Hello''),
                        (''__tag_dotNotation'',
                           VObj [(''relationField'', VStr ''slug''), (''value'', VStr ''sports'')]),
                        (''tag'', VStr ''sports'')]],
      val_invalidRows = Some []\<rparr>"
  by code_simp

section \<open>Relation resolution\<close>

lemma recording_findMany:
  "es_findMany (recording es) uid f (w, log)
     = (fst (es_findMany es uid f w), (snd (es_findMany es uid f w), log @ [FindManyCall uid f]))"
  by (simp add: recording_def split: prod.splits)

lemma await_log:
  assumes k: "\<And>x w' log'. \<exists>rest. snd (snd (k x (w', log'))) = log' @ rest"
  shows "\<exists>rest. snd (snd (await (es_findMany (recording es) uid f) k (w, log)))
           = log @ FindManyCall uid f # rest"
proof (cases "fst (es_findMany es uid f w)")
  case (Threw e)
  then show ?thesis by (simp add: await_def recording_findMany)
next
  case (Returned x)
  obtain rest where "snd (snd (k x (snd (es_findMany es uid f w), log @ [FindManyCall uid f])))
                       = (log @ [FindManyCall uid f]) @ rest"
    using k by blast
  then show ?thesis using Returned by (simp add: await_def recording_findMany)
qed

lemma return_log: "\<exists>rest. snd (snd (return x (w, log))) = log @ rest"
  by (simp add: return_def)

lemma weaken_log:
  "\<exists>rest. snd (snd r) = log @ c # rest \<Longrightarrow> \<exists>rest. snd (snd r) = log @ rest"
  by auto

lemma exactScan_log:
  "\<exists>rest. snd (snd (exactScan (recording es) target v flds (w, log))) = log @ rest"
proof (induction flds arbitrary: w log)
  case Nil
  then show ?case by simp
next
  case (Cons field flds)
  have "\<exists>rest. snd (snd (await (es_findMany (recording es) target (Eqi field v))
           (\<lambda>entities. case entities of e # _ \<Rightarrow> return (Some e)
                                        | [] \<Rightarrow> exactScan (recording es) target v flds) (w, log)))
         = log @ FindManyCall target (Eqi field v) # rest"
  proof (rule await_log)
    fix x :: "jsobj list" and w' log'
    show "\<exists>rest. snd (snd ((case x of e # _ \<Rightarrow> return (Some e)
                                | [] \<Rightarrow> exactScan (recording es) target v flds) (w', log'))) = log' @ rest"
      using Cons.IH return_log by (cases x) auto
  qed
  then show ?case by (simp only: exactScan.simps) (rule weaken_log)
qed

lemma commonFieldLookup_log:
  "\<exists>rest. snd (snd (commonFieldLookup (recording es) contentTypes target v (w, log))) = log @ rest"
proof (cases "schemaOf contentTypes target")
  case None
  then show ?thesis by (simp add: commonFieldLookup_def return_def)
next
  case (Some attributes)
  obtain r w1 log1 where scan: "exactScan (recording es) target v (searchFieldsOf attributes) (w, log) = (r, (w1, log1))"
    by (metis prod.exhaust)
  obtain rest1 where l1: "log1 = log @ rest1"
    using exactScan_log [of es target v "searchFieldsOf attributes" w log] scan by auto
  show ?thesis
  proof (cases r)
    case (Threw e)
    then show ?thesis using Some scan l1 by (simp add: commonFieldLookup_def await_def)
  next
    case (Returned hit)
    show ?thesis
    proof (cases hit)
      case (Some e)
      then show ?thesis using \<open>schemaOf contentTypes target = Some attributes\<close> Returned scan l1
        by (simp add: commonFieldLookup_def await_def return_def)
    next
      case None
      show ?thesis
      proof (cases "searchFieldsOf attributes")
        case Nil
        then show ?thesis using \<open>schemaOf contentTypes target = Some attributes\<close> Returned None scan l1
          by (simp add: commonFieldLookup_def await_def return_def)
      next
        case (Cons first others)
        have "\<exists>rest. snd (snd (await (es_findMany (recording es) target (Containsi first v))
                 (\<lambda>entities. case entities of e # _ \<Rightarrow> return (Some e) | [] \<Rightarrow> return None) (w1, log1)))
               = log1 @ FindManyCall target (Containsi first v) # rest"
        proof (rule await_log)
          fix x :: "jsobj list" and w' log'
          show "\<exists>rest. snd (snd ((case x of e # _ \<Rightarrow> return (Some e) | [] \<Rightarrow> return None) (w', log')))
                  = log' @ rest"
            by (cases x) (simp_all add: return_def)
        qed
        then show ?thesis
          using \<open>schemaOf contentTypes target = Some attributes\<close> Returned None scan l1 Cons
          by (auto simp: commonFieldLookup_def await_def)
      qed
    qed
  qed
qed

lemma identifierLookup_log:
  "\<exists>rest. snd (snd (identifierLookup (recording es) contentTypes target v (w, log))) = log @ rest"
proof (cases "js_isNumeric v")
  case False
  then show ?thesis by (simp add: identifierLookup_def commonFieldLookup_log)
next
  case True
  have "\<exists>rest. snd (snd (await (es_findMany (recording es) target (IdEquals v))
          (\<lambda>entityById. case entityById of e # _ \<Rightarrow> return (Some e)
                          | [] \<Rightarrow> commonFieldLookup (recording es) contentTypes target v) (w, log)))
        = log @ FindManyCall target (IdEquals v) # rest"
  proof (rule await_log)
    fix x :: "jsobj list" and w' log'
    show "\<exists>rest. snd (snd ((case x of e # _ \<Rightarrow> return (Some e)
                              | [] \<Rightarrow> commonFieldLookup (recording es) contentTypes target v) (w', log')))
            = log' @ rest"
      using commonFieldLookup_log return_log by (cases x) auto
  qed
  then show ?thesis using True by (simp add: identifierLookup_def) (rule weaken_log)
qed

lemma findRelatedEntity_log:
  "snd (snd (findRelatedEntity es contentTypes target v searchField w))
     = snd (snd (findRelatedEntity_try es contentTypes target v searchField w))"
  by (simp add: findRelatedEntity_def split: prod.splits outcome.splits)

lemma findRelatedEntity_try_first_call:
  assumes "firstLookup contentTypes target v searchField = Some q"
  shows "\<exists>rest. snd (snd (findRelatedEntity_try (recording es) contentTypes target v searchField (w, log)))
           = log @ FindManyCall target q # rest"
proof (cases "declaredSubfield contentTypes target searchField")
  case True
  then obtain sf where sf: "searchField = Some sf" by (cases searchField) (auto simp: declaredSubfield_def)
  have q: "q = Eqi sf v" using assms True sf by (simp add: firstLookup_def)
  have "\<exists>rest. snd (snd (await (es_findMany (recording es) target (Eqi sf v))
              (\<lambda>entities. case entities of
                 e # _ \<Rightarrow> return (Some e)
               | [] \<Rightarrow>
                   await (es_findMany (recording es) target (Containsi sf v))
                     (\<lambda>partialEntities. case partialEntities of
                        e # _ \<Rightarrow> return (Some e)
                      | [] \<Rightarrow> identifierLookup (recording es) contentTypes target v)) (w, log)))
         = log @ FindManyCall target (Eqi sf v) # rest"
  proof (rule await_log)
    fix x :: "jsobj list" and w' log'
    have inner: "\<exists>rest. snd (snd (await (es_findMany (recording es) target (Containsi sf v))
                     (\<lambda>partialEntities. case partialEntities of
                        e # _ \<Rightarrow> return (Some e)
                      | [] \<Rightarrow> identifierLookup (recording es) contentTypes target v) (w', log')))
             = log' @ FindManyCall target (Containsi sf v) # rest"
    proof (rule await_log)
      fix y :: "jsobj list" and w'' log''
      show "\<exists>rest. snd (snd ((case y of e # _ \<Rightarrow> return (Some e)
                      | [] \<Rightarrow> identifierLookup (recording es) contentTypes target v) (w'', log'')))
             = log'' @ rest"
        using identifierLookup_log return_log by (cases y) auto
    qed
    show "\<exists>rest. snd (snd ((case x of
                 e # _ \<Rightarrow> return (Some e)
               | [] \<Rightarrow>
                   await (es_findMany (recording es) target (Containsi sf v))
                     (\<lambda>partialEntities. case partialEntities of
                        e # _ \<Rightarrow> return (Some e)
                      | [] \<Rightarrow> identifierLookup (recording es) contentTypes target v)) (w', log')))
            = log' @ rest"
      using weaken_log [OF inner] return_log by (cases x) auto
  qed
  then show ?thesis
    using True sf q by (simp add: findRelatedEntity_try_def declaredSubfield_def)
next
  case False
  have body: "findRelatedEntity_try (recording es) contentTypes target v searchField
                = identifierLookup (recording es) contentTypes target v"
    using False by (auto simp: findRelatedEntity_try_def declaredSubfield_def split: option.splits)
  show ?thesis
  proof (cases "js_isNumeric v")
    case True
    then have q: "q = IdEquals v" using assms False by (simp add: firstLookup_def)
    have "\<exists>rest. snd (snd (await (es_findMany (recording es) target (IdEquals v))
          (\<lambda>entityById. case entityById of e # _ \<Rightarrow> return (Some e)
                          | [] \<Rightarrow> commonFieldLookup (recording es) contentTypes target v) (w, log)))
        = log @ FindManyCall target (IdEquals v) # rest"
    proof (rule await_log)
      fix x :: "jsobj list" and w' log'
      show "\<exists>rest. snd (snd ((case x of e # _ \<Rightarrow> return (Some e)
                              | [] \<Rightarrow> commonFieldLookup (recording es) contentTypes target v) (w', log')))
            = log' @ rest"
        using commonFieldLookup_log return_log by (cases x) auto
    qed
    then show ?thesis using True q by (simp add: body identifierLookup_def)
  next
    case nn: False
    from assms False nn obtain attributes field others where
      s: "schemaOf contentTypes target = Some attributes"
         "searchFieldsOf attributes = field # others" "q = Eqi field v"
      by (auto simp: firstLookup_def split: option.splits list.splits)
    have scan: "\<exists>rest. snd (snd (exactScan (recording es) target v (field # others) (w, log)))
                  = log @ FindManyCall target (Eqi field v) # rest"
      unfolding exactScan.simps
    proof (rule await_log)
      fix x :: "jsobj list" and w' log'
      show "\<exists>rest. snd (snd ((case x of e # _ \<Rightarrow> return (Some e)
                                | [] \<Rightarrow> exactScan (recording es) target v others) (w', log'))) = log' @ rest"
        using exactScan_log return_log by (cases x) auto
    qed
    obtain r w1 log1 where sc: "exactScan (recording es) target v (field # others) (w, log) = (r, (w1, log1))"
      by (metis prod.exhaust)
    obtain rest1 where l1: "log1 = log @ FindManyCall target (Eqi field v) # rest1"
      using scan sc by auto
    have "\<exists>rest. snd (snd (commonFieldLookup (recording es) contentTypes target v (w, log)))
             = log @ FindManyCall target (Eqi field v) # rest"
    proof (cases r)
      case (Threw e)
      then show ?thesis using s sc l1 by (simp add: commonFieldLookup_def await_def)
    next
      case (Returned hit)
      show ?thesis
      proof (cases hit)
        case (Some e)
        then show ?thesis using s Returned sc l1
          by (simp add: commonFieldLookup_def await_def return_def)
      next
        case None
        have "\<exists>rest. snd (snd (await (es_findMany (recording es) target (Containsi field v))
                 (\<lambda>entities. case entities of e # _ \<Rightarrow> return (Some e) | [] \<Rightarrow> return None) (w1, log1)))
               = log1 @ FindManyCall target (Containsi field v) # rest"
        proof (rule await_log)
          fix x :: "jsobj list" and w' log'
          show "\<exists>rest. snd (snd ((case x of e # _ \<Rightarrow> return (Some e) | [] \<Rightarrow> return None) (w', log')))
                  = log' @ rest"
            by (cases x) (simp_all add: return_def)
        qed
        then show ?thesis
          using s Returned None sc l1
          by (auto simp: commonFieldLookup_def await_def)
      qed
    qed
    then show ?thesis using nn s by (simp add: body identifierLookup_def)
  qed
qed

lemma findRelatedEntity_try_first_hit:
  assumes "firstLookup contentTypes target v searchField = Some q"
      and "es_findMany es target q w = (Returned (e # others), w')"
  shows "findRelatedEntity_try es contentTypes target v searchField w = (Returned (Some e), w')"
  using assms
  by (auto simp: firstLookup_def findRelatedEntity_try_def identifierLookup_def commonFieldLookup_def
                 declaredSubfield_def await_def return_def
           split: if_splits option.splits list.splits)

text \<open>
  Claim C2, as the code has it. The first lookup \<open>findRelatedEntity\<close> sends is fixed by
  priority: the exact match on the explicit subfield when one is given and the target schema
  declares it; else the lookup by identifier when the value parses fully as a number; else
  the exact match on the first common field. That lookup is the first call recorded, and
  when it finds an entity that entity is the result and no other call is made. So without a
  declared subfield a numeric value that also matches a \<open>name\<close> elsewhere resolves by
  identifier, and a declared subfield comes before the numeric and common-field branches.
\<close>

theorem findRelatedEntity_first_lookup:
  assumes "firstLookup contentTypes target v searchField = Some q"
  shows "(\<exists>rest. snd (snd (findRelatedEntity (recording es) contentTypes target v searchField (w, [])))
            = FindManyCall target q # rest)
         \<and> (case es_findMany es target q w of
              (Returned (e # others), w') \<Rightarrow>
                findRelatedEntity es contentTypes target v searchField w = (Some e, w')
            | _ \<Rightarrow> True)"
proof -
  have a: "\<exists>rest. snd (snd (findRelatedEntity (recording es) contentTypes target v searchField (w, [])))
            = FindManyCall target q # rest"
    using findRelatedEntity_try_first_call [OF assms, of es w "[]"]
    by (simp add: findRelatedEntity_log)
  have b: "case es_findMany es target q w of
              (Returned (e # others), w') \<Rightarrow>
                findRelatedEntity es contentTypes target v searchField w = (Some e, w')
            | _ \<Rightarrow> True"
    using findRelatedEntity_try_first_hit [OF assms, of es w]
    by (auto simp: findRelatedEntity_def split: prod.splits outcome.splits list.splits)
  from a b show ?thesis by simp
qed

theorem findRelatedEntity_first_lookup_witness:
  "findRelatedEntity fiveStore mockContentTypes (Some ''api::country.country'') (VStr ''5'') None ()
     = (Some [(''id'', VNum 5), (''name'', VStr ''India'')], ())
   \<and> es_findMany fiveStore (Some ''api::country.country'') (Eqi ''name'' (VStr ''5'')) ()
     = (Returned [[(''id'', VNum 9), (''name'', VStr ''5'')]], ())"
proof -
  have a: "firstLookup mockContentTypes (Some ''api::country.country'') (VStr ''5'') None
             = Some (IdEquals (VStr ''5''))"
    by code_simp
  have b: "es_findMany fiveStore (Some ''api::country.country'') (IdEquals (VStr ''5'')) ()
             = (Returned [[(''id'', VNum 5), (''name'', VStr ''India'')]], ())"
    by code_simp
  have c: "es_findMany fiveStore (Some ''api::country.country'') (Eqi ''name'' (VStr ''5'')) ()
     = (Returned [[(''id'', VNum 9), (''name'', VStr ''5'')]], ())"
    by code_simp
  from findRelatedEntity_first_lookup [OF a, of fiveStore "()"] b c show ?thesis by simp
qed

text \<open>
  An explicit subfield that the target schema does not declare is never looked up: the
  only call is the lookup by identifier.
\<close>

theorem findRelatedEntity_undeclared_subfield_counterexample:
  "findRelatedEntity (recording fiveStore) mockContentTypes (Some ''api::country.country'')
     (VStr ''5'') (Some ''nickname'') ((), [])
   = (Some [(''id'', VNum 5), (''name'', VStr ''India'')],
      ((), [FindManyCall (Some ''api::country.country'') (IdEquals (VStr ''5''))]))"
  by code_simp

text \<open>
  Claim C3, as the code has it. With an explicit subfield that the target schema declares,
  \<open>findRelatedEntity\<close> tries the exact case-insensitive match on that field, then the
  case-insensitive contains match, and returns the first hit of either (a thrown error ends
  the lookup with "not found"). If both miss, the lookup goes on exactly as with no
  subfield: the identifier branch, then the common-field branches.
\<close>

theorem findRelatedEntity_declared_subfield:
  assumes "declaredSubfield contentTypes target (Some sf)"
  shows "findRelatedEntity es contentTypes target v (Some sf) w =
          (case es_findMany es target (Eqi sf v) w of
             (Threw err, w1) \<Rightarrow> (None, w1)
           | (Returned (e # others), w1) \<Rightarrow> (Some e, w1)
           | (Returned [], w1) \<Rightarrow>
               (case es_findMany es target (Containsi sf v) w1 of
                  (Threw err, w2) \<Rightarrow> (None, w2)
                | (Returned (e # others), w2) \<Rightarrow> (Some e, w2)
                | (Returned [], w2) \<Rightarrow> findRelatedEntity es contentTypes target v None w2))"
  using assms
  by (auto simp: findRelatedEntity_def findRelatedEntity_try_def declaredSubfield_def await_def return_def
           split: prod.splits outcome.splits list.splits option.splits)

theorem findRelatedEntity_declared_subfield_witness:
  "findRelatedEntity fiveStore mockContentTypes (Some ''api::country.country'') (VStr ''5'') (Some ''code'') ()
     = findRelatedEntity fiveStore mockContentTypes (Some ''api::country.country'') (VStr ''5'') None ()"
proof -
  have a: "declaredSubfield mockContentTypes (Some ''api::country.country'') (Some ''code'')"
    by code_simp
  have b: "es_findMany fiveStore (Some ''api::country.country'') (Eqi ''code'' (VStr ''5'')) ()
             = (Returned [], ())"
    by code_simp
  have c: "es_findMany fiveStore (Some ''api::country.country'') (Containsi ''code'' (VStr ''5'')) ()
             = (Returned [], ())"
    by code_simp
  from findRelatedEntity_declared_subfield [OF a, of fiveStore "VStr ''5''" "()"] b c
  show ?thesis by simp
qed

text \<open>
  Both lookups on the declared subfield \<open>code\<close> miss, and the value \<open>5\<close> still resolves,
  by identifier.
\<close>

theorem findRelatedEntity_declared_subfield_counterexample:
  "findRelatedEntity (recording fiveStore) mockContentTypes (Some ''api::country.country'')
     (VStr ''5'') (Some ''code'') ((), [])
   = (Some [(''id'', VNum 5), (''name'', VStr ''India'')],
      ((), [FindManyCall (Some ''api::country.country'') (Eqi ''code'' (VStr ''5'')),
            FindManyCall (Some ''api::country.country'') (Containsi ''code'' (VStr ''5'')),
            FindManyCall (Some ''api::country.country'') (IdEquals (VStr ''5''))]))"
  by code_simp

lemma resolveAll_lookups:
  "resolveAll es contentTypes target searchField vs acc w
     = (acc @ concat (map (\<lambda>r. case r of None \<Rightarrow> [] | Some e \<Rightarrow> [e])
                       (fst (lookups es contentTypes target searchField vs w))),
        snd (lookups es contentTypes target searchField vs w))"
proof (induction vs arbitrary: acc w)
  case Nil
  then show ?case by simp
next
  case (Cons v vs)
  obtain r w' where f: "findRelatedEntity es contentTypes target (VStr v) searchField w = (r, w')"
    by (cases "findRelatedEntity es contentTypes target (VStr v) searchField w") auto
  obtain rs w'' where l: "lookups es contentTypes target searchField vs w' = (rs, w'')"
    by (cases "lookups es contentTypes target searchField vs w'") auto
  show ?case
    using Cons.IH [of _ w'] by (cases r) (simp_all add: f l)
qed

lemma foundIds_map:
  "foundIds rs = map entityId (concat (map (\<lambda>r. case r of None \<Rightarrow> [] | Some e \<Rightarrow> [e]) rs))"
  by (induction rs) (auto simp: foundIds_def split: option.splits)

lemma processRelationField_other:
  "g \<noteq> f \<Longrightarrow>
   obj_get (fst (processRelationField es contentTypes row st (g, b))) f = obj_get (fst st) f"
  by (cases st)
     (auto simp: processRelationField_def Let_def obj_get_obj_set obj_get_obj_delete
           split: option.splits prod.splits jsval.splits if_splits)

lemma foldl_processRelationField_other:
  "f \<notin> fst ` set entries \<Longrightarrow>
   obj_get (fst (foldl (processRelationField es contentTypes row) st entries)) f = obj_get (fst st) f"
proof (induction entries arbitrary: st)
  case Nil
  then show ?case by simp
next
  case (Cons entry entries)
  obtain g b where e: "entry = (g, b)" by (cases entry) auto
  have "g \<noteq> f" using Cons.prems e by auto
  then have "obj_get (fst (processRelationField es contentTypes row st (g, b))) f = obj_get (fst st) f"
    by (rule processRelationField_other)
  moreover have "f \<notin> fst ` set entries" using Cons.prems by auto
  ultimately show ?case using Cons.IH by (simp add: e)
qed

lemma processRelationField_toMany:
  assumes "attr_type a = ''relation''"
      and "attr_relation a = ''oneToMany'' \<or> attr_relation a = ''manyToMany''"
      and "relationInput row f = Some (VStr s, searchField)"
      and "lookups es contentTypes (attr_target a) searchField (map js_trim (js_split CHR '','' s)) w1
             = (results, w2)"
  shows "processRelationField es contentTypes row (row1, w1) (f, a)
           = (if foundIds results = [] then obj_delete row1 f
              else obj_set row1 f (VArr (foundIds results)), w2)"
proof -
  have kinds: "attr_relation a \<noteq> ''oneToOne''" "attr_relation a \<noteq> ''manyToOne''"
    using assms(2) by auto
  show ?thesis
    by (simp add: processRelationField_def assms kinds resolveAll_lookups foundIds_map)
qed

text \<open>
  Claim C4. For a one-to-many or many-to-many relation attribute whose raw relation value
  is present, \<open>processRelations\<close> splits the value on commas, trims each segment, resolves
  the segments one after the other, and sets the field to the list of the identifiers found,
  in input order, skipping the segments that did not resolve; with no identifier found the
  field is deleted from the row. The field name is not itself a side-channel key, and the
  attribute names of the schema are distinct. The value \<open>tag1,tag2\<close> resolving to 1 and 2
  gives the list \<open>[1, 2]\<close> (the witness).
\<close>

theorem processRelations_toMany:
  assumes attrs: "attributes = before @ (f, a) # after" "distinct (map fst attributes)"
      and rel: "attr_type a = ''relation''"
               "attr_relation a = ''oneToMany'' \<or> attr_relation a = ''manyToMany''"
      and raw: "relationInput row f = Some (VStr s, searchField)"
      and key: "\<not> isDotNotationKey f"
      and reached: "foldl (processRelationField es contentTypes row) (row, w) before = (row1, w1)"
      and found: "lookups es contentTypes (attr_target a) searchField
                    (map js_trim (js_split CHR '','' s)) w1 = (results, w2)"
  shows "obj_get (fst (processRelationsRow es contentTypes attributes row w)) f
           = (if foundIds results = [] then None else Some (VArr (foundIds results)))"
proof -
  let ?step = "processRelationField es contentTypes row"
  have nf: "f \<notin> fst ` set after" using attrs by auto
  have st: "?step (row1, w1) (f, a)
              = (if foundIds results = [] then obj_delete row1 f
                 else obj_set row1 f (VArr (foundIds results)), w2)"
    using rel raw found by (rule processRelationField_toMany)
  have "foldl ?step (row, w) attributes = foldl ?step (?step (row1, w1) (f, a)) after"
    by (simp add: attrs(1) reached)
  then have "obj_get (fst (foldl ?step (row, w) attributes)) f
               = obj_get (fst (?step (row1, w1) (f, a))) f"
    using foldl_processRelationField_other [OF nf] by simp
  also have "\<dots> = (if foundIds results = [] then None else Some (VArr (foundIds results)))"
    by (simp add: st obj_get_obj_set obj_get_obj_delete)
  finally show ?thesis
    using key
    by (simp add: processRelationsRow_def case_prod_beta obj_get_filter_keys [of "\<lambda>key. \<not> isDotNotationKey key"])
qed

theorem processRelations_toMany_witness:
  "processRelations tagStore mockContentTypes [[(''tags'', VStr ''tag1,tag2'')]] multiRelationContentType ()
     = ([[(''tags'', VArr [VNum 1, VNum 2])]], ())
   \<and> obj_get (fst (processRelationsRow tagStore mockContentTypes multiRelationContentType
                     [(''tags'', VStr ''tag1,tag2'')] ())) ''tags''
     = Some (VArr [VNum 1, VNum 2])"
proof -
  have a: "multiRelationContentType = [] @ (''tags'', relationAttribute ''manyToMany'' ''api::tag.tag'') # []"
    by (simp add: multiRelationContentType_def)
  have b: "distinct (map fst multiRelationContentType)" by (simp add: multiRelationContentType_def)
  have c: "attr_type (relationAttribute ''manyToMany'' ''api::tag.tag'') = ''relation''"
    by (simp add: relationAttribute_def plainAttribute_def)
  have d: "attr_relation (relationAttribute ''manyToMany'' ''api::tag.tag'') = ''oneToMany''
           \<or> attr_relation (relationAttribute ''manyToMany'' ''api::tag.tag'') = ''manyToMany''"
    by (simp add: relationAttribute_def plainAttribute_def)
  have e: "relationInput [(''tags'', VStr ''tag1,tag2'')] ''tags'' = Some (VStr ''tag1,tag2'', None)"
    by code_simp
  have f: "\<not> isDotNotationKey ''tags''" by code_simp
  have g: "foldl (processRelationField tagStore mockContentTypes [(''tags'', VStr ''tag1,tag2'')])
             ([(''tags'', VStr ''tag1,tag2'')], ()) [] = ([(''tags'', VStr ''tag1,tag2'')], ())"
    by simp
  have h: "lookups tagStore mockContentTypes (attr_target (relationAttribute ''manyToMany'' ''api::tag.tag''))
             None (map js_trim (js_split CHR '','' ''tag1,tag2'')) ()
           = ([Some [(''id'', VNum 1)], Some [(''id'', VNum 2)]], ())"
    by code_simp
  have i: "foundIds [Some [(''id'', VNum 1)], Some [(''id'', VNum 2)]] = [VNum 1, VNum 2]"
    by code_simp
  have j: "processRelations tagStore mockContentTypes [[(''tags'', VStr ''tag1,tag2'')]] multiRelationContentType ()
     = ([[(''tags'', VArr [VNum 1, VNum 2])]], ())"
    by code_simp
  from processRelations_toMany [OF a b c d e f g h] i j show ?thesis by simp
qed

section \<open>Import\<close>

lemma importBatches_total:
  "0 < b \<Longrightarrow> importBatches step b xs i st = Some (foldl step st (drop i xs))"
proof (induction "length xs - i" arbitrary: i st rule: less_induct)
  case less
  show ?case
  proof (cases "i < length xs")
    case True
    have lt: "length xs - (i + b) < length xs - i" using True less.prems by arith
    have e: "take b (drop i xs) @ drop (i + b) xs = drop i xs"
      by (metis add.commute append_take_drop_id drop_drop)
    have "importBatches step b xs i st
          = importBatches step b xs (i + b) (foldl step st (take b (drop i xs)))"
      using True by (subst importBatches.simps) simp
    also have "\<dots> = Some (foldl step (foldl step st (take b (drop i xs))) (drop (i + b) xs))"
      using less.hyps [OF lt less.prems] .
    also have "\<dots> = Some (foldl step st (take b (drop i xs) @ drop (i + b) xs))"
      by simp
    finally show ?thesis by (simp only: e)
  next
    case False
    then show ?thesis by (subst importBatches.simps) simp
  qed
qed

lemma importItem_try_batchSize:
  "importItem_try es uid (opts\<lparr>opt_batchSize := b\<rparr>) = importItem_try es uid opts"
  by (rule ext, rule ext) (simp add: importItem_try_def cong: if_cong)

lemma importItem_batchSize:
  "importItem pmf es uid (opts\<lparr>opt_batchSize := b\<rparr>) = importItem pmf es uid opts"
  by (rule ext, rule ext) (simp add: importItem_def importItem_try_batchSize mediaStep_def)

lemma importData_total:
  "0 < b \<Longrightarrow> importData pmf es uid validData (opts\<lparr>opt_batchSize := b\<rparr>) w
     = Some (foldl (importItem pmf es uid opts) (\<lparr>res_created = 0, res_updated = 0, res_errors = []\<rparr>, w) validData)"
  by (simp add: importData_def importBatches_total importItem_batchSize)

lemma importItem_accounting:
  "importItem pmf es uid opts (results, w) item = (results', w') \<Longrightarrow>
   res_created results' + res_updated results' + length (res_errors results')
     = res_created results + res_updated results + length (res_errors results) + 1"
  by (auto simp: importItem_def importItem_try_def await_def return_def Let_def
           split: prod.splits outcome.splits option.splits if_splits)

lemma foldl_importItem_accounting:
  "foldl (importItem pmf es uid opts) (results, w) items = (results', w') \<Longrightarrow>
   res_created results' + res_updated results' + length (res_errors results')
     = res_created results + res_updated results + length (res_errors results) + length items"
proof (induction items arbitrary: results w)
  case Nil
  then show ?case by simp
next
  case (Cons item items)
  obtain r1 w1 where s: "importItem pmf es uid opts (results, w) item = (r1, w1)"
    by (cases "importItem pmf es uid opts (results, w) item") auto
  from Cons.prems s have "foldl (importItem pmf es uid opts) (r1, w1) items = (results', w')"
    by simp
  from Cons.IH [OF this] importItem_accounting [OF s] show ?case by simp
qed

lemma importItem_try_persistenceCall:
  "importItem_try es uid opts results item w =
     (case persistenceCall es uid opts item w of
        (Threw msg, w') \<Rightarrow> (Threw msg, w')
      | (Returned u, w') \<Rightarrow>
          (Returned (if opt_upsert opts \<and> js_truthy (obj_read item (opt_upsertField opts))
                        \<and> fst (findExistingRecord es uid (opt_upsertField opts)
                                 (obj_read item (opt_upsertField opts)) w) \<noteq> None
                     then results\<lparr>res_updated := res_updated results + 1\<rparr>
                     else results\<lparr>res_created := res_created results + 1\<rparr>), w'))"
  by (auto simp: importItem_try_def persistenceCall_def await_def return_def
           split: prod.splits outcome.splits option.splits)

text \<open>
  Claim C8, as the code has it. With a positive batch size the run returns. When the create
  or update call of a row throws, the error is caught, the entry of the row and the message
  is appended to the errors of the outcome, no counter moves for that row, and the run goes
  on with the next row from there; at the end every row is counted once, as created,
  updated or failed. An error thrown by the upsert lookup is not recorded:
  \<open>findExistingRecord\<close> catches it and answers that no record exists.
\<close>

theorem importData_row_error_recorded:
  assumes batch: "0 < b"
      and rows: "validData = before @ item0 # after"
      and reached: "foldl (importItem pmf es uid opts)
                      (\<lparr>res_created = 0, res_updated = 0, res_errors = []\<rparr>, w) before = (r1, w1)"
      and threw: "persistenceCall es uid opts (mediaStep pmf opts item0) w1 = (Threw msg, w2)"
  shows "importData pmf es uid validData (opts\<lparr>opt_batchSize := b\<rparr>) w
           = Some (foldl (importItem pmf es uid opts)
                     (r1\<lparr>res_errors := res_errors r1 @ [(mediaStep pmf opts item0, msg)]\<rparr>, w2) after)
         \<and> (case importData pmf es uid validData (opts\<lparr>opt_batchSize := b\<rparr>) w of
              None \<Rightarrow> False
            | Some (results', w') \<Rightarrow>
                res_created results' + res_updated results' + length (res_errors results')
                  = length validData)
         \<and> (case es_findMany es (Some uid) (FieldEquals f v) w0 of
              (Threw e, w') \<Rightarrow> findExistingRecord es uid f v w0 = (None, w')
            | (Returned entities, w') \<Rightarrow>
                findExistingRecord es uid f v w0
                  = (case entities of [] \<Rightarrow> None | e # _ \<Rightarrow> Some e, w'))"
proof -
  have step: "importItem pmf es uid opts (r1, w1) item0
                = (r1\<lparr>res_errors := res_errors r1 @ [(mediaStep pmf opts item0, msg)]\<rparr>, w2)"
    using threw by (simp add: importItem_def Let_def importItem_try_persistenceCall)
  have total: "importData pmf es uid validData (opts\<lparr>opt_batchSize := b\<rparr>) w
          = Some (foldl (importItem pmf es uid opts)
                    (\<lparr>res_created = 0, res_updated = 0, res_errors = []\<rparr>, w) validData)"
    using batch by (rule importData_total)
  have cont: "foldl (importItem pmf es uid opts)
                    (\<lparr>res_created = 0, res_updated = 0, res_errors = []\<rparr>, w) validData
        = foldl (importItem pmf es uid opts)
            (r1\<lparr>res_errors := res_errors r1 @ [(mediaStep pmf opts item0, msg)]\<rparr>, w2) after"
    by (simp add: rows reached step)
  have acc: "case importData pmf es uid validData (opts\<lparr>opt_batchSize := b\<rparr>) w of
              None \<Rightarrow> False
            | Some (results', w') \<Rightarrow>
                res_created results' + res_updated results' + length (res_errors results')
                  = length validData"
    using foldl_importItem_accounting
      [of pmf es uid opts "\<lparr>res_created = 0, res_updated = 0, res_errors = []\<rparr>" w validData]
    by (auto simp: total split: prod.splits)
  have look: "case es_findMany es (Some uid) (FieldEquals f v) w0 of
              (Threw e, w') \<Rightarrow> findExistingRecord es uid f v w0 = (None, w')
            | (Returned entities, w') \<Rightarrow>
                findExistingRecord es uid f v w0
                  = (case entities of [] \<Rightarrow> None | e # _ \<Rightarrow> Some e, w')"
    by (simp add: findExistingRecord_def split: prod.splits outcome.splits)
  from total cont acc look show ?thesis by simp
qed

theorem importData_row_error_recorded_witness:
  "importData noMedia failingCreateStore ''api::country.country''
     [[(''name'', VStr ''Test Country''), (''code'', VStr ''TC'')], [(''name'', VStr ''India'')]]
     (defaultOptions\<lparr>opt_batchSize := 1\<rparr>) ()
   = Some (\<lparr>res_created = 0, res_updated = 0,
            res_errors = [([(''name'', VStr ''Test Country''), (''code'', VStr ''TC'')], ''Database error''),
                          ([(''name'', VStr ''India'')], ''Database error'')]\<rparr>, ())"
proof -
  have a: "(0::nat) < 1" by simp
  have b: "[[(''name'', VStr ''Test Country''), (''code'', VStr ''TC'')], [(''name'', VStr ''India'')]]
           = [] @ [(''name'', VStr ''Test Country''), (''code'', VStr ''TC'')] # [[(''name'', VStr ''India'')]]"
    by simp
  have c: "foldl (importItem noMedia failingCreateStore ''api::country.country'' defaultOptions)
             (\<lparr>res_created = 0, res_updated = 0, res_errors = []\<rparr>, ()) []
           = (\<lparr>res_created = 0, res_updated = 0, res_errors = []\<rparr>, ())"
    by simp
  have d: "persistenceCall failingCreateStore ''api::country.country'' defaultOptions
             (mediaStep noMedia defaultOptions [(''name'', VStr ''Test Country''), (''code'', VStr ''TC'')]) ()
           = (Threw ''Database error'', ())"
    by code_simp
  have e: "foldl (importItem noMedia failingCreateStore ''api::country.country'' defaultOptions)
             (\<lparr>res_created = 0, res_updated = 0, res_errors = []\<rparr>
                \<lparr>res_errors := res_errors \<lparr>res_created = 0, res_updated = 0, res_errors = []\<rparr>
                   @ [(mediaStep noMedia defaultOptions [(''name'', VStr ''Test Country''), (''code'', VStr ''TC'')],
                       ''Database error'')]\<rparr>, ()) [[(''name'', VStr ''India'')]]
           = (\<lparr>res_created = 0, res_updated = 0,
            res_errors = [([(''name'', VStr ''Test Country''), (''code'', VStr ''TC'')], ''Database error''),
                          ([(''name'', VStr ''India'')], ''Database error'')]\<rparr>, ())"
    by code_simp
  from importData_row_error_recorded [OF a b c d] e show ?thesis by simp
qed

text \<open>
  A store whose lookup throws, with \<open>upsert\<close> on: the row is created and counted, and the
  error list stays empty.
\<close>

theorem importData_lookup_exception_counterexample:
  "es_findMany failingLookupStore (Some ''api::country.country'') (FieldEquals ''id'' (VNum 1)) ()
     = (Threw ''Database error'', ())
   \<and> importData noMedia failingLookupStore ''api::country.country''
       [[(''id'', VNum 1), (''name'', VStr ''Updated Country'')]]
       (defaultOptions\<lparr>opt_upsert := True\<rparr>) ()
     = Some (\<lparr>res_created = 1, res_updated = 0, res_errors = []\<rparr>, ())"
  by code_simp

text \<open>
  Claim C9. For any two positive batch sizes, \<open>importData\<close> returns, with the same outcome
  (created, updated, errors in the same order) and the same final state of the store; run
  on a recording store, it makes the same calls in the same order.
\<close>

theorem importData_batchSize_irrelevant:
  assumes "0 < b1" and "0 < b2"
  shows "importData pmf es uid validData (opts\<lparr>opt_batchSize := b1\<rparr>) w
           = importData pmf es uid validData (opts\<lparr>opt_batchSize := b2\<rparr>) w
         \<and> importData pmf es uid validData (opts\<lparr>opt_batchSize := b1\<rparr>) w \<noteq> None
         \<and> importData pmf (recording es) uid validData (opts\<lparr>opt_batchSize := b1\<rparr>) (w, [])
           = importData pmf (recording es) uid validData (opts\<lparr>opt_batchSize := b2\<rparr>) (w, [])"
  using assms by (simp add: importData_total)

theorem importData_batchSize_irrelevant_witness:
  "importData noMedia (recording tagStore) ''api::country.country''
     [[(''name'', VStr ''India'')], [(''name'', VStr ''China'')], [(''name'', VStr ''Peru'')]]
     (defaultOptions\<lparr>opt_batchSize := 2\<rparr>) ((), [])
   = importData noMedia (recording tagStore) ''api::country.country''
     [[(''name'', VStr ''India'')], [(''name'', VStr ''China'')], [(''name'', VStr ''Peru'')]]
     (defaultOptions\<lparr>opt_batchSize := 100\<rparr>) ((), [])
   \<and> importData noMedia (recording tagStore) ''api::country.country''
     [[(''name'', VStr ''India'')], [(''name'', VStr ''China'')], [(''name'', VStr ''Peru'')]]
     (defaultOptions\<lparr>opt_batchSize := 2\<rparr>) ((), [])
   = Some (\<lparr>res_created = 3, res_updated = 0, res_errors = []\<rparr>,
           ((), [CreateCall ''api::country.country'' [(''name'', VStr ''India'')],
                 CreateCall ''api::country.country'' [(''name'', VStr ''China'')],
                 CreateCall ''api::country.country'' [(''name'', VStr ''Peru'')]]))"
proof -
  have a: "(0::nat) < 2" and b: "(0::nat) < 100" by simp_all
  have c: "importData noMedia (recording tagStore) ''api::country.country''
     [[(''name'', VStr ''India'')], [(''name'', VStr ''China'')], [(''name'', VStr ''Peru'')]]
     (defaultOptions\<lparr>opt_batchSize := 2\<rparr>) ((), [])
   = Some (\<lparr>res_created = 3, res_updated = 0, res_errors = []\<rparr>,
           ((), [CreateCall ''api::country.country'' [(''name'', VStr ''India'')],
                 CreateCall ''api::country.country'' [(''name'', VStr ''China'')],
                 CreateCall ''api::country.country'' [(''name'', VStr ''Peru'')]]))"
    by code_simp
  from importData_batchSize_irrelevant [OF a b, of noMedia "recording tagStore" "''api::country.country''"
      "[[(''name'', VStr ''India'')], [(''name'', VStr ''China'')], [(''name'', VStr ''Peru'')]]" defaultOptions "((), [])"]
    c show ?thesis by simp
qed

end
